theory Spec2Isabelle
  imports Main "HOL-Library.Char_ord" "HOL-Library.List_Lexorder"
begin

section \<open>Strings and character classes\<close>

text \<open>
  Python strings are modelled as HOL strings; a character is read as the code point
  U+0000..U+00FF it denotes. The classes below are those of Python 3 for \<^verbatim>\<open>str\<close>
  patterns (Unicode mode) restricted to that range: \<^verbatim>\<open>\s\<close> is \<^verbatim>\<open>str.isspace\<close>,
  \<^verbatim>\<open>\d\<close> is a decimal digit, \<^verbatim>\<open>\w\<close> is \<^verbatim>\<open>str.isalnum\<close> or an underscore.
  Strings with code points beyond U+00FF have a section of their own below.
\<close>

definition code :: "char \<Rightarrow> nat" where
  "code c = of_char c"

definition is_space :: "char \<Rightarrow> bool" where
  "is_space c = (code c \<in> {9, 10, 11, 12, 13, 28, 29, 30, 31, 32, 133, 160})"

definition is_digit :: "char \<Rightarrow> bool" where
  "is_digit c = (48 \<le> code c \<and> code c \<le> 57)"

definition is_upper :: "char \<Rightarrow> bool" where
  "is_upper c = (65 \<le> code c \<and> code c \<le> 90
     \<or> 192 \<le> code c \<and> code c \<le> 214 \<or> 216 \<le> code c \<and> code c \<le> 222)"

definition is_alpha :: "char \<Rightarrow> bool" where
  "is_alpha c = (65 \<le> code c \<and> code c \<le> 90 \<or> 97 \<le> code c \<and> code c \<le> 122
     \<or> code c \<in> {170, 181, 186}
     \<or> 192 \<le> code c \<and> code c \<le> 214 \<or> 216 \<le> code c \<and> code c \<le> 246
     \<or> 248 \<le> code c \<and> code c \<le> 255)"

definition is_word :: "char \<Rightarrow> bool" where
  "is_word c = (is_alpha c \<or> is_digit c \<or> code c \<in> {178, 179, 185, 188, 189, 190}
     \<or> c = CHR ''_'')"

text \<open>\<^verbatim>\<open>str.lower\<close> on one character: an upper-case letter moves 32 code points up,
  which sets the bit of value 32.\<close>

definition lower :: "char \<Rightarrow> char" where
  "lower c =
     (if is_upper c
      then (case c of Char b0 b1 b2 b3 b4 b5 b6 b7 \<Rightarrow> Char b0 b1 b2 b3 b4 True b6 b7)
      else c)"

definition str_lower :: "string \<Rightarrow> string" where
  "str_lower s = map lower s"

text \<open>\<^verbatim>\<open>s.strip()\<close>: leading and trailing whitespace removed.\<close>

definition strip :: "string \<Rightarrow> string" where
  "strip s = rev (dropWhile is_space (rev (dropWhile is_space s)))"

text \<open>\<^verbatim>\<open>sub in s\<close> for strings: \<open>sub\<close> occurs in \<open>s\<close> as a contiguous substring.\<close>

fun starts_with :: "string \<Rightarrow> string \<Rightarrow> bool" where
  "starts_with [] s = True"
| "starts_with (p # ps) [] = False"
| "starts_with (p # ps) (c # cs) = (p = c \<and> starts_with ps cs)"

fun str_in :: "string \<Rightarrow> string \<Rightarrow> bool" where
  "str_in sub [] = (sub = [])"
| "str_in sub (c # cs) = (starts_with sub (c # cs) \<or> str_in sub cs)"

definition ends_with :: "string \<Rightarrow> string \<Rightarrow> bool" where
  "ends_with suf s = starts_with (rev suf) (rev s)"

text \<open>\<^verbatim>\<open>s.replace(old, new)\<close>: the occurrences of \<open>old\<close> from left to right, without
  overlap; \<open>k\<close> counts the characters of an occurrence still to skip. An empty \<open>old\<close>
  puts \<open>new\<close> before every character and at the end.\<close>

fun replace_go :: "string \<Rightarrow> string \<Rightarrow> nat \<Rightarrow> string \<Rightarrow> string" where
  "replace_go old new k [] = []"
| "replace_go old new k (c # cs) =
     (if 0 < k then replace_go old new (k - 1) cs
      else if starts_with old (c # cs) then new @ replace_go old new (length old - 1) cs
      else c # replace_go old new 0 cs)"

definition replace_str :: "string \<Rightarrow> string \<Rightarrow> string \<Rightarrow> string" where
  "replace_str old new s =
     (if old = [] then concat (map (\<lambda>c. new @ [c]) s) @ new else replace_go old new 0 s)"

text \<open>\<^verbatim>\<open>s.split()\<close>: the maximal pieces without whitespace; \<open>cur\<close> is the piece being
  read, reversed.\<close>

fun split_go :: "string \<Rightarrow> string \<Rightarrow> string list" where
  "split_go cur [] = (if cur = [] then [] else [rev cur])"
| "split_go cur (c # cs) =
     (if is_space c then (if cur = [] then split_go [] cs else rev cur # split_go [] cs)
      else split_go (c # cur) cs)"

definition split_ws :: "string \<Rightarrow> string list" where
  "split_ws s = split_go [] s"

section \<open>Regular expressions as Python's \<^verbatim>\<open>re\<close> matches them\<close>

text \<open>
  The patterns of the scripts use literals, character classes, greedy repetition of a
  class, optional groups, alternation, one capturing group level, \<^verbatim>\<open>\b\<close>, \<^verbatim>\<open>^\<close>,
  \<^verbatim>\<open>$\<close> and negative lookahead. \<^verbatim>\<open>re\<close> is a backtracking matcher: alternatives are
  tried left to right, greedy repetitions longest first, and the first path that reaches
  the end of the pattern is the match. The matcher below returns every such path, in that
  order; the head of the list is the match \<^verbatim>\<open>re\<close> reports.

  A matcher state is the text before the cursor (reversed), the text after it, and the
  groups captured so far.
\<close>

datatype rx =
    Eps
  | Atom "char \<Rightarrow> bool"
  | Seq rx rx
  | Alt rx rx
  | Opt rx
  | Rep nat "nat option" "char \<Rightarrow> bool"
  | Grp nat rx
  | WordB
  | Bol
  | Eol
  | NotAhead rx

type_synonym groups = "nat \<Rightarrow> string option"
type_synonym mstate = "string \<times> string \<times> groups"

definition at_boundary :: "string \<Rightarrow> string \<Rightarrow> bool" where
  "at_boundary pre rest =
     ((case pre of [] \<Rightarrow> False | c # _ \<Rightarrow> is_word c)
        \<noteq> (case rest of [] \<Rightarrow> False | c # _ \<Rightarrow> is_word c))"

fun mt :: "rx \<Rightarrow> mstate \<Rightarrow> mstate list" where
  "mt Eps s = [s]"
| "mt (Atom P) (pre, rest, g) =
     (case rest of [] \<Rightarrow> [] | c # cs \<Rightarrow> if P c then [(c # pre, cs, g)] else [])"
| "mt (Seq a b) s = concat (map (\<lambda>s'. mt b s') (mt a s))"
| "mt (Alt a b) s = mt a s @ mt b s"
| "mt (Opt a) s = mt a s @ [s]"
| "mt (Rep lo hi P) (pre, rest, g) =
     (let n = length (takeWhile P rest);
          m = (case hi of None \<Rightarrow> n | Some h \<Rightarrow> min h n)
      in map (\<lambda>k. (rev (take k rest) @ pre, drop k rest, g)) (rev [lo ..< Suc m]))"
| "mt (Grp i a) (pre, rest, g) =
     map (\<lambda>(pre', rest', g'). (pre', rest', g'(i \<mapsto> take (length rest - length rest') rest)))
       (mt a (pre, rest, g))"
| "mt WordB (pre, rest, g) = (if at_boundary pre rest then [(pre, rest, g)] else [])"
| "mt Bol (pre, rest, g) = (if pre = [] then [(pre, rest, g)] else [])"
| "mt Eol (pre, rest, g) =
     (if rest = [] \<or> rest = [CHR 0x0A] then [(pre, rest, g)] else [])"
| "mt (NotAhead a) s = (if mt a s = [] then [s] else [])"

text \<open>Pattern syntax: a sequence, a choice, a literal string with and without
  \<^verbatim>\<open>re.IGNORECASE\<close>, and the classes the scripts use.\<close>

fun seqs :: "rx list \<Rightarrow> rx" where
  "seqs [] = Eps"
| "seqs [r] = r"
| "seqs (r # rs) = Seq r (seqs rs)"

fun alts :: "rx list \<Rightarrow> rx" where
  "alts [] = NotAhead Eps"
| "alts [r] = r"
| "alts (r # rs) = Alt r (alts rs)"

definition lit :: "string \<Rightarrow> rx" where
  "lit s = seqs (map (\<lambda>c. Atom (\<lambda>x. x = c)) s)"

definition liti :: "string \<Rightarrow> rx" where
  "liti s = seqs (map (\<lambda>c. Atom (\<lambda>x. lower x = lower c)) s)"

definition in_range :: "char \<Rightarrow> char \<Rightarrow> char \<Rightarrow> bool" where
  "in_range lo hi c = (code lo \<le> code c \<and> code c \<le> code hi)"

definition sep :: "char \<Rightarrow> bool" where
  "sep c = (is_space c \<or> c = CHR ''_'' \<or> c = CHR ''-'')"

definition dot :: "char \<Rightarrow> bool" where
  "dot c = (c \<noteq> CHR 0x0A)"

text \<open>Match objects: start, end and groups. \<^verbatim>\<open>re.match\<close> tries the start of the string
  only, \<^verbatim>\<open>re.search\<close> every position from left to right.\<close>

type_synonym match = "nat \<times> nat \<times> groups"

definition no_groups :: groups where
  "no_groups = (\<lambda>i. None)"

definition match_here :: "rx \<Rightarrow> string \<Rightarrow> string \<Rightarrow> match option" where
  "match_here r pre rest =
     (case mt r (pre, rest, no_groups) of
        [] \<Rightarrow> None
      | (pre', rest', g) # _ \<Rightarrow> Some (length pre, length pre + (length rest - length rest'), g))"

definition re_match :: "rx \<Rightarrow> string \<Rightarrow> match option" where
  "re_match r s = match_here r [] s"

fun search_from :: "rx \<Rightarrow> string \<Rightarrow> string \<Rightarrow> match option" where
  "search_from r pre [] = match_here r pre []"
| "search_from r pre (c # cs) =
     (case match_here r pre (c # cs) of
        Some m \<Rightarrow> Some m
      | None \<Rightarrow> search_from r (c # pre) cs)"

definition re_search :: "rx \<Rightarrow> string \<Rightarrow> match option" where
  "re_search r s = search_from r [] s"

definition group :: "match \<Rightarrow> nat \<Rightarrow> string option" where
  "group m i = (case m of (st, en, g) \<Rightarrow> g i)"

text \<open>
  \<^verbatim>\<open>finditer\<close>: the matches from left to right, without overlap. After an empty match
  the scan stays where it is and must advance, so only a non-empty match counts there;
  when there is none the scan moves on by one character.
\<close>

function finditer_from :: "rx \<Rightarrow> bool \<Rightarrow> string \<Rightarrow> string \<Rightarrow> match list" where
  "finditer_from r must_advance pre rest =
     (case filter (\<lambda>(pre', rest', g). \<not> must_advance \<or> length rest' < length rest)
             (mt r (pre, rest, no_groups)) of
        [] \<Rightarrow> (case rest of [] \<Rightarrow> [] | c # cs \<Rightarrow> finditer_from r False (c # pre) cs)
      | (pre', rest', g) # _ \<Rightarrow>
          (let n = length rest - length rest' in
           (length pre, length pre + n, g) #
             (if n = 0 then finditer_from r True pre rest
              else finditer_from r False (rev (take n rest) @ pre) (drop n rest))))"
  by pat_completeness auto
termination
proof (relation "measures [\<lambda>(r, adv, pre, rest). length rest,
                           \<lambda>(r, adv, pre, rest). if adv then 0 else 1]", goal_cases)
  case 1
  show ?case by simp
next
  case (2 r must_advance pre rest c cs)
  then show ?case by simp
next
  case (3 r must_advance pre rest x xs pre' y rest' g n)
  have "x \<in> set (filter (\<lambda>(pre', rest', g). \<not> must_advance \<or> length rest' < length rest)
           (mt r (pre, rest, no_groups)))"
    using 3(1) by (metis list.set_intros(1))
  then have "\<not> must_advance \<or> length rest' < length rest"
    using 3(2,3) by auto
  then show ?case using 3(4,5) by auto
next
  case (4 r must_advance pre rest x xs pre' y rest' g n)
  then show ?case by (cases rest) auto
qed

definition finditer :: "rx \<Rightarrow> string \<Rightarrow> match list" where
  "finditer r s = finditer_from r False [] s"

text \<open>\<^verbatim>\<open>re.sub\<close> with a replacement that has no group reference: the text between the
  matches is kept, each match is replaced.\<close>

fun sub_build :: "string \<Rightarrow> string \<Rightarrow> nat \<Rightarrow> match list \<Rightarrow> string" where
  "sub_build repl s pos [] = drop pos s"
| "sub_build repl s pos ((st, en, g) # ms) =
     take (st - pos) (drop pos s) @ repl @ sub_build repl s en ms"

definition re_sub :: "rx \<Rightarrow> string \<Rightarrow> string \<Rightarrow> string" where
  "re_sub r repl s = sub_build repl s 0 (finditer r s)"

text \<open>An f-string renders an unset group as \<^verbatim>\<open>None\<close>.\<close>

definition fmt :: "string option \<Rightarrow> string" where
  "fmt v = (case v of None \<Rightarrow> ''None'' | Some s \<Rightarrow> s)"

section \<open>Title Field Extractor\<close>

text \<open>\<^verbatim>\<open>(\d{2,4})\s?GB\b\<close> with \<^verbatim>\<open>re.IGNORECASE\<close>.\<close>

definition STORAGE_RE :: rx where
  "STORAGE_RE = seqs [Grp 1 (Rep 2 (Some 4) is_digit), Rep 0 (Some 1) is_space, liti ''GB'', WordB]"

definition extract_storage :: "string \<Rightarrow> string" where
  "extract_storage title =
     (case re_search STORAGE_RE title of
        Some m \<Rightarrow> fmt (group m 1) @ '' GB''
      | None \<Rightarrow> ''Unknown'')"

definition extract_condition :: "string \<Rightarrow> string" where
  "extract_condition title =
     (if str_in ''Excellent'' title then ''Excellent''
      else if str_in ''Very'' title then ''Very Good''
      else if str_in ''Good'' title then ''Good''
      else ''Unknown'')"

section \<open>Model Token Normalizer\<close>

text \<open>The exceptions the scripts can raise.\<close>

datatype error =
    ValueError string | AttributeError | KeyError string | TypeError | FileNotFoundError string

text \<open>\<^verbatim>\<open>dict.fromkeys\<close>: the keys in insertion order, each once.\<close>

definition fromkeys :: "'a list \<Rightarrow> 'a list" where
  "fromkeys xs = foldl (\<lambda>acc x. if x \<in> set acc then acc else acc @ [x]) [] xs"

text \<open>\<^verbatim>\<open>\s+\<close>, used to collapse whitespace in a token.\<close>

definition WS_RUN :: rx where
  "WS_RUN = Rep 1 None is_space"

subsection \<open>Pixel (\<^verbatim>\<open>pixel_all_only.py\<close>)\<close>

text \<open>\<^verbatim>\<open>(?:Google\s+)?Pixel\s+((?:[1-9][0-9]?)(?:\s?(?:Pro|XL|Pro XL|a))?)\b(?:\s*5G)?\<close>\<close>

definition MODEL_RE :: rx where
  "MODEL_RE = seqs
     [Opt (seqs [liti ''Google'', Rep 1 None is_space]),
      liti ''Pixel'', Rep 1 None is_space,
      Grp 1 (seqs
        [seqs [Atom (in_range CHR ''1'' CHR ''9''), Opt (Atom (in_range CHR ''0'' CHR ''9''))],
         Opt (seqs [Opt (Atom is_space),
                    alts [liti ''Pro'', liti ''XL'', liti ''Pro XL'', liti ''a'']])]),
      WordB,
      Opt (seqs [Rep 0 None is_space, liti ''5G''])]"

text \<open>\<^verbatim>\<open>^([1-9][0-9]?)(?:\s?(Pro|XL|Pro XL|a))?$\<close>\<close>

definition TOKEN_RE :: rx where
  "TOKEN_RE = seqs
     [Bol,
      Grp 1 (seqs [Atom (in_range CHR ''1'' CHR ''9''), Opt (Atom (in_range CHR ''0'' CHR ''9''))]),
      Opt (seqs [Opt (Atom is_space),
                 Grp 2 (alts [liti ''Pro'', liti ''XL'', liti ''Pro XL'', liti ''a''])]),
      Eol]"

definition normalize_model_token :: "string \<Rightarrow> string option" where
  "normalize_model_token token =
     (let t = re_sub WS_RUN '' '' (strip token) in
      case re_match TOKEN_RE t of
        None \<Rightarrow> None
      | Some m \<Rightarrow>
          (let num = fmt (group m 1);
               suf = str_lower (case group m 2 of None \<Rightarrow> [] | Some x \<Rightarrow> x)
           in if suf = [] then Some (''Pixel '' @ num)
              else if suf = ''pro'' then Some (''Pixel '' @ num @ '' Pro'')
              else if suf = ''xl'' then Some (''Pixel '' @ num @ '' XL'')
              else if suf = ''pro xl'' then Some (''Pixel '' @ num @ '' Pro XL'')
              else if suf = ''a'' then Some (''Pixel '' @ num @ ''a'')
              else None))"

text \<open>The loop over the captured tokens: a token is \<^verbatim>\<open>m.group(1)\<close>, and stripping an
  unset group would raise \<^verbatim>\<open>AttributeError\<close>.\<close>

fun collect_models :: "(string \<Rightarrow> string option) \<Rightarrow> string option list \<Rightarrow> error + string list" where
  "collect_models norm [] = Inr []"
| "collect_models norm (None # toks) = Inl AttributeError"
| "collect_models norm (Some tok # toks) =
     (let canon = norm tok in
      case collect_models norm toks of
        Inl e \<Rightarrow> Inl e
      | Inr models \<Rightarrow>
          (case canon of
             None \<Rightarrow> Inr models
           | Some c \<Rightarrow> if c \<noteq> [] then Inr (c # models) else Inr models))"

definition single_or_none :: "string list \<Rightarrow> string option" where
  "single_or_none models =
     (let models = fromkeys models in
      if length models = 1 then Some (hd models) else None)"

text \<open>The list \<^verbatim>\<open>models\<close> before it is deduplicated.\<close>

definition canonical_models :: "string \<Rightarrow> error + string list" where
  "canonical_models title =
     (let tokens = map (\<lambda>m. group m 1) (finditer MODEL_RE title) in
      collect_models normalize_model_token tokens)"

definition extract_single_model_or_none :: "string \<Rightarrow> error + string option" where
  "extract_single_model_or_none title =
     (case canonical_models title of
        Inl e \<Rightarrow> Inl e
      | Inr models \<Rightarrow> Inr (single_or_none models))"

subsection \<open>Pixel (\<^verbatim>\<open>test.py\<close>)\<close>

text \<open>\<^verbatim>\<open>(?:Google\s+)?Pixel\s+((?:[1-9][0-9]?)(?:\s?(?:Pro\s+XL|Pro|XL|a))?)\b(?:\s*5G)?\<close>\<close>

definition MODEL_RE_test :: rx where
  "MODEL_RE_test = seqs
     [Opt (seqs [liti ''Google'', Rep 1 None is_space]),
      liti ''Pixel'', Rep 1 None is_space,
      Grp 1 (seqs
        [seqs [Atom (in_range CHR ''1'' CHR ''9''), Opt (Atom (in_range CHR ''0'' CHR ''9''))],
         Opt (seqs [Opt (Atom is_space),
                    alts [seqs [liti ''Pro'', Rep 1 None is_space, liti ''XL''],
                          liti ''Pro'', liti ''XL'', liti ''a'']])]),
      WordB,
      Opt (seqs [Rep 0 None is_space, liti ''5G''])]"

text \<open>\<^verbatim>\<open>^([1-9][0-9]?)(?:\s?(Pro\s+XL|Pro|XL|a))?$\<close>\<close>

definition TOKEN_RE_test :: rx where
  "TOKEN_RE_test = seqs
     [Bol,
      Grp 1 (seqs [Atom (in_range CHR ''1'' CHR ''9''), Opt (Atom (in_range CHR ''0'' CHR ''9''))]),
      Opt (seqs [Opt (Atom is_space),
                 Grp 2 (alts [seqs [liti ''Pro'', Rep 1 None is_space, liti ''XL''],
                              liti ''Pro'', liti ''XL'', liti ''a''])]),
      Eol]"

definition normalize_model_token_test :: "string \<Rightarrow> string option" where
  "normalize_model_token_test token =
     (let t = re_sub WS_RUN '' '' (strip token) in
      case re_match TOKEN_RE_test t of
        None \<Rightarrow> None
      | Some m \<Rightarrow>
          (let num = fmt (group m 1);
               suf = str_lower (strip (case group m 2 of None \<Rightarrow> [] | Some x \<Rightarrow> x))
           in if suf = [] then Some (''Pixel '' @ num)
              else if suf = ''pro'' then Some (''Pixel '' @ num @ '' Pro'')
              else if suf = ''xl'' then Some (''Pixel '' @ num @ '' XL'')
              else if suf = ''pro xl'' then Some (''Pixel '' @ num @ '' Pro XL'')
              else if suf = ''a'' then Some (''Pixel '' @ num @ ''a'')
              else None))"

definition canonical_models_test :: "string \<Rightarrow> error + string list" where
  "canonical_models_test title =
     (let tokens = map (\<lambda>m. group m 1) (finditer MODEL_RE_test title) in
      collect_models normalize_model_token_test tokens)"

definition extract_single_model_or_none_test :: "string \<Rightarrow> error + string option" where
  "extract_single_model_or_none_test title =
     (case canonical_models_test title of
        Inl e \<Rightarrow> Inl e
      | Inr models \<Rightarrow> Inr (single_or_none models))"

subsection \<open>iPhone (\<^verbatim>\<open>iphone_all_only.py\<close>)\<close>

text \<open>\<^verbatim>\<open>(?:Apple\s+)?iPhone\s+((?:[1-9][0-9]?)(?:\s?(?:Pro\s+Max|Pro|Plus|Mini|Max))?)\b\<close>\<close>

definition IPHONE_MODEL_RE :: rx where
  "IPHONE_MODEL_RE = seqs
     [Opt (seqs [liti ''Apple'', Rep 1 None is_space]),
      liti ''iPhone'', Rep 1 None is_space,
      Grp 1 (seqs
        [seqs [Atom (in_range CHR ''1'' CHR ''9''), Opt (Atom (in_range CHR ''0'' CHR ''9''))],
         Opt (seqs [Opt (Atom is_space),
                    alts [seqs [liti ''Pro'', Rep 1 None is_space, liti ''Max''],
                          liti ''Pro'', liti ''Plus'', liti ''Mini'', liti ''Max'']])]),
      WordB]"

text \<open>\<^verbatim>\<open>^([1-9][0-9]?)(?:\s?(Pro\s+Max|Pro|Plus|Mini|Max))?$\<close>\<close>

definition IPHONE_TOKEN_RE :: rx where
  "IPHONE_TOKEN_RE = seqs
     [Bol,
      Grp 1 (seqs [Atom (in_range CHR ''1'' CHR ''9''), Opt (Atom (in_range CHR ''0'' CHR ''9''))]),
      Opt (seqs [Opt (Atom is_space),
                 Grp 2 (alts [seqs [liti ''Pro'', Rep 1 None is_space, liti ''Max''],
                              liti ''Pro'', liti ''Plus'', liti ''Mini'', liti ''Max''])]),
      Eol]"

definition normalize_iphone_token :: "string \<Rightarrow> string option" where
  "normalize_iphone_token token =
     (let t = re_sub WS_RUN '' '' (strip token) in
      case re_match IPHONE_TOKEN_RE t of
        None \<Rightarrow> None
      | Some m \<Rightarrow>
          (let num = fmt (group m 1);
               suf = str_lower (strip (case group m 2 of None \<Rightarrow> [] | Some x \<Rightarrow> x))
           in if suf = [] then Some (''iPhone '' @ num)
              else if suf = ''pro max'' then Some (''iPhone '' @ num @ '' Pro Max'')
              else if suf = ''pro'' then Some (''iPhone '' @ num @ '' Pro'')
              else if suf = ''plus'' then Some (''iPhone '' @ num @ '' Plus'')
              else if suf = ''mini'' then Some (''iPhone '' @ num @ '' Mini'')
              else if suf = ''max'' then Some (''iPhone '' @ num @ '' Max'')
              else None))"

definition canonical_iphone_models :: "string \<Rightarrow> error + string list" where
  "canonical_iphone_models title =
     (let tokens = map (\<lambda>m. group m 1) (finditer IPHONE_MODEL_RE title) in
      collect_models normalize_iphone_token tokens)"

definition extract_single_iphone_model_or_none :: "string \<Rightarrow> error + string option" where
  "extract_single_iphone_model_or_none title =
     (case canonical_iphone_models title of
        Inl e \<Rightarrow> Inl e
      | Inr models \<Rightarrow> Inr (single_or_none models))"

section \<open>Source File Resolver\<close>

text \<open>
  A directory is the list of the names of its entries. \<^verbatim>\<open>directory.glob('*.csv')\<close> keeps
  the names that end in \<^verbatim>\<open>.csv\<close>; paths of one directory are sorted by name, character
  by character.
\<close>

definition glob_csv :: "string list \<Rightarrow> string list" where
  "glob_csv directory = filter (ends_with ''.csv'') directory"

definition first_sorted :: "string list \<Rightarrow> string option" where
  "first_sorted candidates = (case sort candidates of [] \<Rightarrow> None | p # _ \<Rightarrow> Some p)"

definition not_recognized :: "string \<Rightarrow> error" where
  "not_recognized model_name = ValueError (''Model name not recognized: '' @ model_name)"

subsection \<open>Pixel (\<^verbatim>\<open>pixel_all_only.py\<close>)\<close>

text \<open>\<^verbatim>\<open>^Pixel\s+([0-9]{1,2})(?:\s+(Pro|XL)(?:\s+XL)?)?$\<close>\<close>

definition PIXEL_NAME_RE :: rx where
  "PIXEL_NAME_RE = seqs
     [Bol, liti ''Pixel'', Rep 1 None is_space,
      Grp 1 (Rep 1 (Some 2) (in_range CHR ''0'' CHR ''9'')),
      Opt (seqs [Rep 1 None is_space, Grp 2 (alts [liti ''Pro'', liti ''XL'']),
                 Opt (seqs [Rep 1 None is_space, liti ''XL''])]),
      Eol]"

text \<open>\<^verbatim>\<open>\bpixel\<close>, then \<^verbatim>\<open>[\s_-]*\<close> and the escaped token for every token of the model
  name, then \<^verbatim>\<open>\b.*\.csv$\<close>.\<close>

definition pixel_file_pattern :: "string list \<Rightarrow> rx" where
  "pixel_file_pattern model_tokens = seqs
     ([WordB, liti ''pixel'']
      @ map (\<lambda>tok. seqs [Rep 0 None sep, liti tok]) model_tokens
      @ [WordB, Rep 0 None dot, liti ''.csv'', Eol])"

definition find_csv_for_model :: "string list \<Rightarrow> string \<Rightarrow> error + string option" where
  "find_csv_for_model directory model_name =
     (case re_match PIXEL_NAME_RE model_name of
        None \<Rightarrow> Inl (not_recognized model_name)
      | Some m \<Rightarrow>
          (let model_tokens = split_ws (strip (replace_str ''Pixel'' [] model_name));
               pattern = pixel_file_pattern model_tokens;
               candidates = filter (\<lambda>p. re_search pattern p \<noteq> None) (glob_csv directory)
           in Inr (first_sorted candidates)))"

subsection \<open>Pixel (\<^verbatim>\<open>test.py\<close>)\<close>

text \<open>\<^verbatim>\<open>^Pixel\s+([0-9]{1,2})(?:\s+(Pro(?:\s+XL)?|XL|a))?$\<close>\<close>

definition PIXEL_NAME_RE_test :: rx where
  "PIXEL_NAME_RE_test = seqs
     [Bol, liti ''Pixel'', Rep 1 None is_space,
      Grp 1 (Rep 1 (Some 2) (in_range CHR ''0'' CHR ''9'')),
      Opt (seqs [Rep 1 None is_space,
                 Grp 2 (alts [seqs [liti ''Pro'', Opt (seqs [Rep 1 None is_space, liti ''XL''])],
                              liti ''XL'', liti ''a''])]),
      Eol]"

text \<open>\<^verbatim>\<open>\bpixel[\s_-]*{num}\b(?![\s_-]*(?:pro|xl|a)).*\.csv$\<close>\<close>

definition pixel_base_pattern :: "string \<Rightarrow> rx" where
  "pixel_base_pattern num = seqs
     [WordB, liti ''pixel'', Rep 0 None sep, liti num, WordB,
      NotAhead (seqs [Rep 0 None sep, alts [liti ''pro'', liti ''xl'', liti ''a'']]),
      Rep 0 None dot, liti ''.csv'', Eol]"

text \<open>\<^verbatim>\<open>\bpixel[\s_-]*{num}[\s_-]*xl\b(?!.*pro).*\.csv$\<close>\<close>

definition pixel_xl_pattern :: "string \<Rightarrow> rx" where
  "pixel_xl_pattern num = seqs
     [WordB, liti ''pixel'', Rep 0 None sep, liti num, Rep 0 None sep, liti ''xl'', WordB,
      NotAhead (seqs [Rep 0 None dot, liti ''pro'']),
      Rep 0 None dot, liti ''.csv'', Eol]"

text \<open>\<^verbatim>\<open>\bpixel[\s_-]*{num}[\s_-]*pro\b(?![\s_-]*xl).*\.csv$\<close>\<close>

definition pixel_pro_pattern :: "string \<Rightarrow> rx" where
  "pixel_pro_pattern num = seqs
     [WordB, liti ''pixel'', Rep 0 None sep, liti num, Rep 0 None sep, liti ''pro'', WordB,
      NotAhead (seqs [Rep 0 None sep, liti ''xl'']),
      Rep 0 None dot, liti ''.csv'', Eol]"

text \<open>\<^verbatim>\<open>\bpixel[\s_-]*{num}[\s_-]*pro[\s_-]*xl\b.*\.csv$\<close>\<close>

definition pixel_pro_xl_pattern :: "string \<Rightarrow> rx" where
  "pixel_pro_xl_pattern num = seqs
     [WordB, liti ''pixel'', Rep 0 None sep, liti num, Rep 0 None sep, liti ''pro'',
      Rep 0 None sep, liti ''xl'', WordB, Rep 0 None dot, liti ''.csv'', Eol]"

text \<open>\<^verbatim>\<open>\bpixel[\s_-]*{num}[\s_-]*a\b.*\.csv$\<close>\<close>

definition pixel_a_pattern :: "string \<Rightarrow> rx" where
  "pixel_a_pattern num = seqs
     [WordB, liti ''pixel'', Rep 0 None sep, liti num, Rep 0 None sep, liti ''a'', WordB,
      Rep 0 None dot, liti ''.csv'', Eol]"

definition find_csv_for_model_test :: "string list \<Rightarrow> string \<Rightarrow> error + string option" where
  "find_csv_for_model_test directory model_name =
     (case re_match PIXEL_NAME_RE_test model_name of
        None \<Rightarrow> Inl (not_recognized model_name)
      | Some m \<Rightarrow>
          (let num = fmt (group m 1);
               variant = str_lower (strip (case group m 2 of None \<Rightarrow> [] | Some x \<Rightarrow> x))
           in if variant \<noteq> [] \<and> variant \<noteq> ''xl'' \<and> variant \<noteq> ''pro''
                 \<and> variant \<noteq> ''pro xl'' \<and> variant \<noteq> ''a''
              then Inl (ValueError (''Variant not supported: '' @ variant))
              else
                (let pattern = (if variant = [] then pixel_base_pattern num
                                else if variant = ''xl'' then pixel_xl_pattern num
                                else if variant = ''pro'' then pixel_pro_pattern num
                                else if variant = ''pro xl'' then pixel_pro_xl_pattern num
                                else pixel_a_pattern num);
                     candidates = filter (\<lambda>p. re_search pattern p \<noteq> None) (glob_csv directory)
                 in Inr (first_sorted candidates))))"

subsection \<open>iPhone (\<^verbatim>\<open>iphone_all_only.py\<close>)\<close>

text \<open>\<^verbatim>\<open>^iPhone\s+([0-9]{2})(?:\s+(Pro)(?:\s+Max)?)?$\<close>\<close>

definition IPHONE_NAME_RE :: rx where
  "IPHONE_NAME_RE = seqs
     [Bol, liti ''iPhone'', Rep 1 None is_space,
      Grp 1 (Rep 2 (Some 2) (in_range CHR ''0'' CHR ''9'')),
      Opt (seqs [Rep 1 None is_space, Grp 2 (liti ''Pro''),
                 Opt (seqs [Rep 1 None is_space, liti ''Max''])]),
      Eol]"

text \<open>\<^verbatim>\<open>\biphone[\s_-]*{num}[\s_-]*pro[\s_-]*max\b.*\.csv$\<close>\<close>

definition iphone_pro_max_pattern :: "string \<Rightarrow> rx" where
  "iphone_pro_max_pattern num = seqs
     [WordB, liti ''iphone'', Rep 0 None sep, liti num, Rep 0 None sep, liti ''pro'',
      Rep 0 None sep, liti ''max'', WordB, Rep 0 None dot, liti ''.csv'', Eol]"

text \<open>\<^verbatim>\<open>\biphone[\s_-]*{num}[\s_-]*pro\b(?![\s_-]*max).*\.csv$\<close>\<close>

definition iphone_pro_pattern :: "string \<Rightarrow> rx" where
  "iphone_pro_pattern num = seqs
     [WordB, liti ''iphone'', Rep 0 None sep, liti num, Rep 0 None sep, liti ''pro'', WordB,
      NotAhead (seqs [Rep 0 None sep, liti ''max'']),
      Rep 0 None dot, liti ''.csv'', Eol]"

text \<open>\<^verbatim>\<open>\biphone[\s_-]*{num}\b(?![\s_-]*(?:pro|max)).*\.csv$\<close>\<close>

definition iphone_base_pattern :: "string \<Rightarrow> rx" where
  "iphone_base_pattern num = seqs
     [WordB, liti ''iphone'', Rep 0 None sep, liti num, WordB,
      NotAhead (seqs [Rep 0 None sep, alts [liti ''pro'', liti ''max'']]),
      Rep 0 None dot, liti ''.csv'', Eol]"

definition find_csv_for_iphone :: "string list \<Rightarrow> string \<Rightarrow> error + string option" where
  "find_csv_for_iphone directory model_name =
     (case re_match IPHONE_NAME_RE model_name of
        None \<Rightarrow> Inl (not_recognized model_name)
      | Some m \<Rightarrow>
          (let num = fmt (group m 1);
               is_pro = (case group m 2 of None \<Rightarrow> False | Some x \<Rightarrow> x \<noteq> []);
               is_pro_max = ends_with ''pro max'' (str_lower (strip model_name));
               pattern = (if is_pro_max then iphone_pro_max_pattern num
                          else if is_pro then iphone_pro_pattern num
                          else iphone_base_pattern num);
               candidates = filter (\<lambda>p. re_search pattern p \<noteq> None) (glob_csv directory)
           in Inr (first_sorted candidates)))"

section \<open>Subset Exporter\<close>

subsection \<open>DataFrames\<close>

text \<open>
  A cell holds a string, a boolean, a timestamp or one of the missing values \<^verbatim>\<open>NaN\<close>,
  \<^verbatim>\<open>NaT\<close> and \<^verbatim>\<open>None\<close>; timestamps are kept abstract. A row lists its cells by column
  name, in column order; a frame has its column names and its rows.
\<close>

datatype 'd cell = Str string | Bool bool | Stamp 'd | NaN | NaT | PyNone

type_synonym 'd row = "(string \<times> 'd cell) list"

record 'd frame =
  columns :: "string list"
  rows :: "'d row list"

text \<open>
  What the scripts take from pandas and from Python's Unicode tables and do not define.
  \<open>to_datetime xs i\<close> is the value at position \<open>i\<close> of
  \<^verbatim>\<open>pd.to_datetime(xs, errors='coerce')\<close> for the Series of strings \<open>xs\<close>: a timestamp, or
  \<^verbatim>\<open>NaT\<close> where the text does not parse. \<open>stamp_str\<close> is how \<^verbatim>\<open>astype(str)\<close> renders a
  timestamp, \<open>contains_nocase pat s\<close> is \<^verbatim>\<open>str.contains(pat, case=False, regex=False)\<close> on
  one string, \<open>casefold\<close> is \<^verbatim>\<open>str.casefold\<close>.
\<close>

record 'd library =
  to_datetime :: "string list \<Rightarrow> nat \<Rightarrow> 'd cell"
  stamp_str :: "'d \<Rightarrow> string"
  contains_nocase :: "string \<Rightarrow> string \<Rightarrow> bool"
  casefold :: "string \<Rightarrow> string"

definition astype_str :: "'d library \<Rightarrow> 'd cell \<Rightarrow> string" where
  "astype_str P c =
     (case c of
        Str s \<Rightarrow> s
      | Bool b \<Rightarrow> (if b then ''True'' else ''False'')
      | Stamp d \<Rightarrow> stamp_str P d
      | NaN \<Rightarrow> ''nan''
      | NaT \<Rightarrow> ''NaT''
      | PyNone \<Rightarrow> ''None'')"

definition get_cell :: "string \<Rightarrow> 'd row \<Rightarrow> 'd cell" where
  "get_cell c r = (case map_of r c of Some v \<Rightarrow> v | None \<Rightarrow> NaN)"

definition set_cell :: "string \<Rightarrow> 'd cell \<Rightarrow> 'd row \<Rightarrow> 'd row" where
  "set_cell c v r =
     (if c \<in> fst ` set r then map (\<lambda>(k, x). if k = c then (k, v) else (k, x)) r
      else r @ [(c, v)])"

text \<open>\<^verbatim>\<open>df[c]\<close>, \<^verbatim>\<open>df[c] = values\<close> and \<^verbatim>\<open>df[mask]\<close>.\<close>

definition column :: "'d frame \<Rightarrow> string \<Rightarrow> error + 'd cell list" where
  "column df c =
     (if c \<in> set (columns df) then Inr (map (get_cell c) (rows df)) else Inl (KeyError c))"

definition assign :: "string \<Rightarrow> 'd cell list \<Rightarrow> 'd frame \<Rightarrow> 'd frame" where
  "assign c vs df =
     df\<lparr>columns := (if c \<in> set (columns df) then columns df else columns df @ [c]),
        rows := map (\<lambda>(r, v). set_cell c v r) (zip (rows df) vs)\<rparr>"

definition select :: "bool list \<Rightarrow> 'd frame \<Rightarrow> 'd frame" where
  "select keep df = df\<lparr>rows := map fst (filter snd (zip (rows df) keep))\<rparr>"

text \<open>The titles of a frame as strings: the extractors raise \<^verbatim>\<open>TypeError\<close> on a title that
  is not a string.\<close>

fun title_strings :: "'d cell list \<Rightarrow> error + string list" where
  "title_strings [] = Inr []"
| "title_strings (Str t # cs) =
     (case title_strings cs of Inl e \<Rightarrow> Inl e | Inr ts \<Rightarrow> Inr (t # ts))"
| "title_strings (c # cs) = Inl TypeError"

fun apply_models :: "(string \<Rightarrow> error + string option) \<Rightarrow> string list \<Rightarrow> error + string option list" where
  "apply_models f [] = Inr []"
| "apply_models f (t # ts) =
     (case f t of
        Inl e \<Rightarrow> Inl e
      | Inr m \<Rightarrow> (case apply_models f ts of Inl e \<Rightarrow> Inl e | Inr ms \<Rightarrow> Inr (m # ms)))"

definition model_cell :: "string option \<Rightarrow> 'd cell" where
  "model_cell m = (case m of None \<Rightarrow> PyNone | Some c \<Rightarrow> Str c)"

subsection \<open>Sold dates\<close>

text \<open>\<^verbatim>\<open>^\s*Sold\s+\<close> and \<^verbatim>\<open>\s{2,}\<close>, both without \<^verbatim>\<open>re.IGNORECASE\<close>.\<close>

definition SOLD_PREFIX :: rx where
  "SOLD_PREFIX = seqs [Bol, Rep 0 None is_space, lit ''Sold'', Rep 1 None is_space]"

definition WS_2 :: rx where
  "WS_2 = Rep 2 None is_space"

definition clean_sold_pixel :: "string \<Rightarrow> string" where
  "clean_sold_pixel s = strip (re_sub WS_2 '' '' (re_sub SOLD_PREFIX [] s))"

definition clean_sold_iphone :: "string \<Rightarrow> string" where
  "clean_sold_iphone s = strip (re_sub SOLD_PREFIX [] s)"

definition sold_texts :: "'d library \<Rightarrow> (string \<Rightarrow> string) \<Rightarrow> 'd frame \<Rightarrow> string list" where
  "sold_texts P clean df = map (\<lambda>r. clean (astype_str P (get_cell ''Sold Date'' r))) (rows df)"

definition convert_sold_date :: "'d library \<Rightarrow> (string \<Rightarrow> string) \<Rightarrow> 'd frame \<Rightarrow> 'd frame" where
  "convert_sold_date P clean tmp =
     (if ''Sold Date'' \<in> set (columns tmp)
      then (let xs = sold_texts P clean tmp
            in assign ''Sold Date'' (map (to_datetime P xs) [0 ..< length xs]) tmp)
      else tmp)"

subsection \<open>Pixel (\<^verbatim>\<open>pixel_all_only.py\<close>)\<close>

definition clean_and_filter_for_model :: "'d library \<Rightarrow> 'd frame \<Rightarrow> string \<Rightarrow> error + 'd frame" where
  "clean_and_filter_for_model P df target_model =
     (case column df ''Title'' of
        Inl e \<Rightarrow> Inl e
      | Inr cells \<Rightarrow>
     (case title_strings cells of
        Inl e \<Rightarrow> Inl e
      | Inr titles \<Rightarrow>
     (let tmp = assign ''Storage'' (map (\<lambda>t. Str (extract_storage t)) titles) df;
          tmp = assign ''Condition'' (map (\<lambda>t. Str (extract_condition t)) titles) tmp;
          tmp = assign ''PartsOnly'' (map (\<lambda>t. Bool (contains_nocase P ''Parts Only'' t)) titles) tmp;
          tmp = convert_sold_date P clean_sold_pixel tmp
      in case apply_models extract_single_model_or_none titles of
           Inl e \<Rightarrow> Inl e
         | Inr models \<Rightarrow>
             (let tmp = assign ''Model'' (map model_cell models) tmp;
                  tmp = select (map (\<lambda>m. m \<noteq> None) models) tmp;
                  flag_col = replace_str '' '' ''_'' target_model;
                  flags = map (\<lambda>r. get_cell ''Model'' r = Str target_model) (rows tmp);
                  tmp = assign flag_col (map Bool flags) tmp;
                  tmp = select flags tmp
              in Inr tmp))))"

subsection \<open>iPhone (\<^verbatim>\<open>iphone_all_only.py\<close>)\<close>

definition casefold_eq :: "'d library \<Rightarrow> string \<Rightarrow> 'd cell \<Rightarrow> bool" where
  "casefold_eq P target c = (case c of Str m \<Rightarrow> casefold P m = casefold P target | _ \<Rightarrow> False)"

definition clean_and_filter_for_iphone :: "'d library \<Rightarrow> 'd frame \<Rightarrow> string \<Rightarrow> error + 'd frame" where
  "clean_and_filter_for_iphone P df target_model =
     (case column df ''Title'' of
        Inl e \<Rightarrow> Inl e
      | Inr cells \<Rightarrow>
     (case title_strings cells of
        Inl e \<Rightarrow> Inl e
      | Inr titles \<Rightarrow>
     (let tmp = assign ''Storage'' (map (\<lambda>t. Str (extract_storage t)) titles) df;
          tmp = assign ''Condition'' (map (\<lambda>t. Str (extract_condition t)) titles) tmp;
          tmp = assign ''PartsOnly'' (map (\<lambda>t. Bool (contains_nocase P ''Parts Only'' t)) titles) tmp
      in case apply_models extract_single_iphone_model_or_none titles of
           Inl e \<Rightarrow> Inl e
         | Inr models \<Rightarrow>
             (let tmp = assign ''Model'' (map model_cell models) tmp;
                  tmp = select (map (\<lambda>m. m \<noteq> None) models) tmp;
                  tmp = convert_sold_date P clean_sold_iphone tmp;
                  flag_col = replace_str '' '' ''_'' target_model;
                  flags = map (\<lambda>r. casefold_eq P target_model (get_cell ''Model'' r)) (rows tmp);
                  tmp = assign flag_col (map Bool flags) tmp;
                  tmp = select flags tmp
              in Inr tmp))))"

subsection \<open>Exporting and the batch loop\<close>

text \<open>
  The world of a run: the data directory, each file with the frame that \<^verbatim>\<open>pd.read_csv\<close>
  reads from it and \<^verbatim>\<open>to_csv\<close> writes to it, and the lines printed so far. The printed
  lines are kept as messages: no CSV found for a model, the source file used, and a model
  exported with its number of rows and its output file.
\<close>

datatype message = NoCsvFound string | UsingFile string | Exported string nat string

record 'd world =
  files :: "(string \<times> 'd frame) list"
  stdout :: "message list"

definition listing :: "'d world \<Rightarrow> string list" where
  "listing w = map fst (files w)"

definition print :: "message \<Rightarrow> 'd world \<Rightarrow> 'd world" where
  "print msg w = w\<lparr>stdout := stdout w @ [msg]\<rparr>"

definition read_csv :: "'d world \<Rightarrow> string \<Rightarrow> error + 'd frame" where
  "read_csv w src = (case map_of (files w) src of None \<Rightarrow> Inl (FileNotFoundError src) | Some df \<Rightarrow> Inr df)"

definition to_csv :: "string \<Rightarrow> 'd frame \<Rightarrow> 'd world \<Rightarrow> 'd world" where
  "to_csv name df w =
     w\<lparr>files := (if name \<in> fst ` set (files w)
                  then map (\<lambda>(k, x). if k = name then (k, df) else (k, x)) (files w)
                  else files w @ [(name, df)])\<rparr>"

definition out_name_of :: "string \<Rightarrow> string" where
  "out_name_of model_name = replace_str '' '' ''_'' (str_lower model_name) @ ''_only.csv''"

definition export_model_subset :: "'d library \<Rightarrow> 'd world \<Rightarrow> string \<Rightarrow> (error + string option) \<times> 'd world" where
  "export_model_subset P w model_name =
     (case find_csv_for_model (listing w) model_name of
        Inl e \<Rightarrow> (Inl e, w)
      | Inr None \<Rightarrow> (Inr None, print (NoCsvFound model_name) w)
      | Inr (Some src) \<Rightarrow>
          (let w = print (UsingFile src) w in
           case read_csv w src of
             Inl e \<Rightarrow> (Inl e, w)
           | Inr df \<Rightarrow>
               (case clean_and_filter_for_model P df model_name of
                  Inl e \<Rightarrow> (Inl e, w)
                | Inr subset_df \<Rightarrow>
                    (let out_name = out_name_of model_name;
                         w = to_csv out_name subset_df w;
                         w = print (Exported model_name (length (rows subset_df)) out_name) w
                     in (Inr (Some out_name), w)))))"

definition export_iphone_subset :: "'d library \<Rightarrow> 'd world \<Rightarrow> string \<Rightarrow> (error + string option) \<times> 'd world" where
  "export_iphone_subset P w model_name =
     (case find_csv_for_iphone (listing w) model_name of
        Inl e \<Rightarrow> (Inl e, w)
      | Inr None \<Rightarrow> (Inr None, print (NoCsvFound model_name) w)
      | Inr (Some src) \<Rightarrow>
          (let w = print (UsingFile src) w in
           case read_csv w src of
             Inl e \<Rightarrow> (Inl e, w)
           | Inr df \<Rightarrow>
               (case clean_and_filter_for_iphone P df model_name of
                  Inl e \<Rightarrow> (Inl e, w)
                | Inr subset_df \<Rightarrow>
                    (let out_name = out_name_of model_name;
                         w = to_csv out_name subset_df w;
                         w = print (Exported model_name (length (rows subset_df)) out_name) w
                     in (Inr (Some out_name), w)))))"

text \<open>The module-level loop \<^verbatim>\<open>for model in MODELS: export_model_subset(DATA_DIR, model)\<close>:
  an exception ends the run where it is raised.\<close>

fun run_batch :: "'d library \<Rightarrow> 'd world \<Rightarrow> string list \<Rightarrow> (error + unit) \<times> 'd world" where
  "run_batch P w [] = (Inr (), w)"
| "run_batch P w (model # models) =
     (case export_model_subset P w model of
        (Inl e, w') \<Rightarrow> (Inl e, w')
      | (Inr path, w') \<Rightarrow> run_batch P w' models)"

fun run_iphone_batch :: "'d library \<Rightarrow> 'd world \<Rightarrow> string list \<Rightarrow> (error + unit) \<times> 'd world" where
  "run_iphone_batch P w [] = (Inr (), w)"
| "run_iphone_batch P w (model # models) =
     (case export_iphone_subset P w model of
        (Inl e, w') \<Rightarrow> (Inl e, w')
      | (Inr path, w') \<Rightarrow> run_iphone_batch P w' models)"

definition MODELS :: "string list" where
  "MODELS = [''Pixel 6'', ''Pixel 6 Pro'', ''Pixel 7'', ''Pixel 7 Pro'', ''Pixel 8'', ''Pixel 8 Pro'',
     ''Pixel 9'', ''Pixel 9 Pro'', ''Pixel 9 Pro XL'', ''Pixel 10'', ''Pixel 10 Pro'', ''Pixel 10 Pro XL'']"

definition IPHONE_MODELS :: "string list" where
  "IPHONE_MODELS = [''iPhone 12'', ''iPhone 12 Pro'', ''iPhone 12 Pro Max'',
     ''iPhone 13'', ''iPhone 13 Pro'', ''iPhone 13 Pro Max'',
     ''iPhone 14'', ''iPhone 14 Pro'', ''iPhone 14 Pro Max'',
     ''iPhone 15'', ''iPhone 15 Pro'', ''iPhone 15 Pro Max'',
     ''iPhone 16'', ''iPhone 16 Pro'', ''iPhone 16 Pro Max'',
     ''iPhone 17'', ''iPhone 17 Pro'', ''iPhone 17 Pro Max'']"

definition main :: "'d library \<Rightarrow> 'd world \<Rightarrow> (error + unit) \<times> 'd world" where
  "main P w = run_batch P w MODELS"

definition main_iphone :: "'d library \<Rightarrow> 'd world \<Rightarrow> (error + unit) \<times> 'd world" where
  "main_iphone P w = run_iphone_batch P w IPHONE_MODELS"

section \<open>Strings beyond Latin-1\<close>

text \<open>
  A Python string holds any code point, and two things the scripts rely on part ways
  outside Latin-1. \<^verbatim>\<open>re.IGNORECASE\<close> compares the simple lower case of a character with the
  lower case of the pattern letter and with the letters that \<^verbatim>\<open>re\<close> pairs with it: "i"
  with U+0131 (dotless i), "s" with U+017F (long s); the simple lower case of U+0130
  (capital I with dot) is "i". \<^verbatim>\<open>str.lower\<close> leaves U+0131 and U+017F as they are and
  turns U+0130 into "i" followed by U+0307.

  This section reads a string as the list of its code points and gives the character
  classes for U+0000..U+017F (Basic Latin, Latin-1 Supplement and Latin Extended-A, whose
  128 characters are letters); below U+0100 they are the classes of the first section.
  The matcher is the one above, on code points, with the constructs that the iPhone
  scanner and normalizer use.
\<close>

type_synonym ustring = "nat list"

definition ustr :: "string \<Rightarrow> ustring" where
  "ustr s = map code s"

definition u_is_space :: "nat \<Rightarrow> bool" where
  "u_is_space c = (c \<in> {9, 10, 11, 12, 13, 28, 29, 30, 31, 32, 133, 160})"

definition u_is_digit :: "nat \<Rightarrow> bool" where
  "u_is_digit c = (48 \<le> c \<and> c \<le> 57)"

definition u_is_alpha :: "nat \<Rightarrow> bool" where
  "u_is_alpha c = (65 \<le> c \<and> c \<le> 90 \<or> 97 \<le> c \<and> c \<le> 122
     \<or> c \<in> {170, 181, 186}
     \<or> 192 \<le> c \<and> c \<le> 214 \<or> 216 \<le> c \<and> c \<le> 246
     \<or> 248 \<le> c \<and> c \<le> 383)"

definition u_is_word :: "nat \<Rightarrow> bool" where
  "u_is_word c = (u_is_alpha c \<or> u_is_digit c \<or> c \<in> {178, 179, 185, 188, 189, 190}
     \<or> c = 95)"

text \<open>\<^verbatim>\<open>str.lower\<close> on one character, and the simple lower case that \<^verbatim>\<open>re\<close> uses. In
  Latin Extended-A the capital letters are the even code points of U+0100..U+0137 and
  U+014A..U+0177 and the odd ones of U+0139..U+0148 and U+0179..U+017E, each followed by
  its small letter, except U+0130; U+0178 is the capital of U+00FF.\<close>

definition u_lower :: "nat \<Rightarrow> nat list" where
  "u_lower c =
     (if 65 \<le> c \<and> c \<le> 90 \<or> 192 \<le> c \<and> c \<le> 214 \<or> 216 \<le> c \<and> c \<le> 222 then [c + 32]
      else if c = 304 then [105, 775]
      else if c = 376 then [255]
      else if (256 \<le> c \<and> c \<le> 311 \<or> 330 \<le> c \<and> c \<le> 375) \<and> even c then [c + 1]
      else if (313 \<le> c \<and> c \<le> 328 \<or> 377 \<le> c \<and> c \<le> 382) \<and> odd c then [c + 1]
      else [c])"

definition u_tolower :: "nat \<Rightarrow> nat" where
  "u_tolower c = (if c = 304 then 105 else hd (u_lower c))"

definition u_str_lower :: "ustring \<Rightarrow> ustring" where
  "u_str_lower s = concat (map u_lower s)"

definition u_strip :: "ustring \<Rightarrow> ustring" where
  "u_strip s = rev (dropWhile u_is_space (rev (dropWhile u_is_space s)))"

text \<open>The letters that \<^verbatim>\<open>re\<close> pairs with a lower-case letter beyond its case variants,
  and \<^verbatim>\<open>re.IGNORECASE\<close> on one pattern character \<open>p\<close> and one character \<open>x\<close> of the text.\<close>

definition u_fixes :: "nat \<Rightarrow> nat list" where
  "u_fixes lo =
     (if lo = 105 then [305] else if lo = 305 then [105]
      else if lo = 115 then [383] else if lo = 383 then [115] else [])"

definition u_ieq :: "nat \<Rightarrow> nat \<Rightarrow> bool" where
  "u_ieq p x = (u_tolower x \<in> set (u_tolower p # u_fixes (u_tolower p)))"

datatype urx =
    UEps
  | UAtom "nat \<Rightarrow> bool"
  | USeq urx urx
  | UAlt urx urx
  | UOpt urx
  | URep nat "nat option" "nat \<Rightarrow> bool"
  | UGrp nat urx
  | UWordB
  | UBol
  | UEol

type_synonym ugroups = "nat \<Rightarrow> ustring option"
type_synonym umstate = "ustring \<times> ustring \<times> ugroups"

definition u_at_boundary :: "ustring \<Rightarrow> ustring \<Rightarrow> bool" where
  "u_at_boundary pre rest =
     ((case pre of [] \<Rightarrow> False | c # _ \<Rightarrow> u_is_word c)
        \<noteq> (case rest of [] \<Rightarrow> False | c # _ \<Rightarrow> u_is_word c))"

fun u_mt :: "urx \<Rightarrow> umstate \<Rightarrow> umstate list" where
  "u_mt UEps s = [s]"
| "u_mt (UAtom P) (pre, rest, g) =
     (case rest of [] \<Rightarrow> [] | c # cs \<Rightarrow> if P c then [(c # pre, cs, g)] else [])"
| "u_mt (USeq a b) s = concat (map (\<lambda>s'. u_mt b s') (u_mt a s))"
| "u_mt (UAlt a b) s = u_mt a s @ u_mt b s"
| "u_mt (UOpt a) s = u_mt a s @ [s]"
| "u_mt (URep lo hi P) (pre, rest, g) =
     (let n = length (takeWhile P rest);
          m = (case hi of None \<Rightarrow> n | Some h \<Rightarrow> min h n)
      in map (\<lambda>k. (rev (take k rest) @ pre, drop k rest, g)) (rev [lo ..< Suc m]))"
| "u_mt (UGrp i a) (pre, rest, g) =
     map (\<lambda>(pre', rest', g'). (pre', rest', g'(i \<mapsto> take (length rest - length rest') rest)))
       (u_mt a (pre, rest, g))"
| "u_mt UWordB (pre, rest, g) = (if u_at_boundary pre rest then [(pre, rest, g)] else [])"
| "u_mt UBol (pre, rest, g) = (if pre = [] then [(pre, rest, g)] else [])"
| "u_mt UEol (pre, rest, g) = (if rest = [] \<or> rest = [10] then [(pre, rest, g)] else [])"

fun u_seqs :: "urx list \<Rightarrow> urx" where
  "u_seqs [] = UEps"
| "u_seqs [r] = r"
| "u_seqs (r # rs) = USeq r (u_seqs rs)"

fun u_alts :: "urx list \<Rightarrow> urx" where
  "u_alts [] = UAtom (\<lambda>x. False)"
| "u_alts [r] = r"
| "u_alts (r # rs) = UAlt r (u_alts rs)"

definition u_liti :: "string \<Rightarrow> urx" where
  "u_liti s = u_seqs (map (\<lambda>c. UAtom (u_ieq (code c))) s)"

definition u_in_range :: "char \<Rightarrow> char \<Rightarrow> nat \<Rightarrow> bool" where
  "u_in_range lo hi c = (code lo \<le> c \<and> c \<le> code hi)"

type_synonym umatch = "nat \<times> nat \<times> ugroups"

definition u_no_groups :: ugroups where
  "u_no_groups = (\<lambda>i. None)"

definition u_match_here :: "urx \<Rightarrow> ustring \<Rightarrow> ustring \<Rightarrow> umatch option" where
  "u_match_here r pre rest =
     (case u_mt r (pre, rest, u_no_groups) of
        [] \<Rightarrow> None
      | (pre', rest', g) # _ \<Rightarrow> Some (length pre, length pre + (length rest - length rest'), g))"

definition u_re_match :: "urx \<Rightarrow> ustring \<Rightarrow> umatch option" where
  "u_re_match r s = u_match_here r [] s"

definition u_group :: "umatch \<Rightarrow> nat \<Rightarrow> ustring option" where
  "u_group m i = (case m of (st, en, g) \<Rightarrow> g i)"

function u_finditer_from :: "urx \<Rightarrow> bool \<Rightarrow> ustring \<Rightarrow> ustring \<Rightarrow> umatch list" where
  "u_finditer_from r must_advance pre rest =
     (case filter (\<lambda>(pre', rest', g). \<not> must_advance \<or> length rest' < length rest)
             (u_mt r (pre, rest, u_no_groups)) of
        [] \<Rightarrow> (case rest of [] \<Rightarrow> [] | c # cs \<Rightarrow> u_finditer_from r False (c # pre) cs)
      | (pre', rest', g) # _ \<Rightarrow>
          (let n = length rest - length rest' in
           (length pre, length pre + n, g) #
             (if n = 0 then u_finditer_from r True pre rest
              else u_finditer_from r False (rev (take n rest) @ pre) (drop n rest))))"
  by pat_completeness auto
termination
proof (relation "measures [\<lambda>(r, adv, pre, rest). length rest,
                           \<lambda>(r, adv, pre, rest). if adv then 0 else 1]", goal_cases)
  case 1
  show ?case by simp
next
  case (2 r must_advance pre rest c cs)
  then show ?case by simp
next
  case (3 r must_advance pre rest x xs pre' y rest' g n)
  have "x \<in> set (filter (\<lambda>(pre', rest', g). \<not> must_advance \<or> length rest' < length rest)
           (u_mt r (pre, rest, u_no_groups)))"
    using 3(1) by (metis list.set_intros(1))
  then have "\<not> must_advance \<or> length rest' < length rest"
    using 3(2,3) by auto
  then show ?case using 3(4,5) by auto
next
  case (4 r must_advance pre rest x xs pre' y rest' g n)
  then show ?case by (cases rest) auto
qed

definition u_finditer :: "urx \<Rightarrow> ustring \<Rightarrow> umatch list" where
  "u_finditer r s = u_finditer_from r False [] s"

fun u_sub_build :: "ustring \<Rightarrow> ustring \<Rightarrow> nat \<Rightarrow> umatch list \<Rightarrow> ustring" where
  "u_sub_build repl s pos [] = drop pos s"
| "u_sub_build repl s pos ((st, en, g) # ms) =
     take (st - pos) (drop pos s) @ repl @ u_sub_build repl s en ms"

definition u_re_sub :: "urx \<Rightarrow> ustring \<Rightarrow> ustring \<Rightarrow> ustring" where
  "u_re_sub r repl s = u_sub_build repl s 0 (u_finditer r s)"

definition u_fmt :: "ustring option \<Rightarrow> ustring" where
  "u_fmt v = (case v of None \<Rightarrow> ustr ''None'' | Some s \<Rightarrow> s)"

text \<open>The iPhone scanner and normalizer of \<^verbatim>\<open>iphone_all_only.py\<close> on code points:
  \<^verbatim>\<open>IPHONE_MODEL_RE\<close>, the pattern of \<^verbatim>\<open>normalize_iphone_token\<close>, \<^verbatim>\<open>\s+\<close>, the list
  \<^verbatim>\<open>tokens\<close> of the extractor and the normalizer.\<close>

definition IPHONE_MODEL_RE_u :: urx where
  "IPHONE_MODEL_RE_u = u_seqs
     [UOpt (u_seqs [u_liti ''Apple'', URep 1 None u_is_space]),
      u_liti ''iPhone'', URep 1 None u_is_space,
      UGrp 1 (u_seqs
        [u_seqs [UAtom (u_in_range CHR ''1'' CHR ''9''), UOpt (UAtom (u_in_range CHR ''0'' CHR ''9''))],
         UOpt (u_seqs [UOpt (UAtom u_is_space),
                       u_alts [u_seqs [u_liti ''Pro'', URep 1 None u_is_space, u_liti ''Max''],
                               u_liti ''Pro'', u_liti ''Plus'', u_liti ''Mini'', u_liti ''Max'']])]),
      UWordB]"

definition IPHONE_TOKEN_RE_u :: urx where
  "IPHONE_TOKEN_RE_u = u_seqs
     [UBol,
      UGrp 1 (u_seqs [UAtom (u_in_range CHR ''1'' CHR ''9''), UOpt (UAtom (u_in_range CHR ''0'' CHR ''9''))]),
      UOpt (u_seqs [UOpt (UAtom u_is_space),
                    UGrp 2 (u_alts [u_seqs [u_liti ''Pro'', URep 1 None u_is_space, u_liti ''Max''],
                                    u_liti ''Pro'', u_liti ''Plus'', u_liti ''Mini'', u_liti ''Max''])]),
      UEol]"

definition WS_RUN_u :: urx where
  "WS_RUN_u = URep 1 None u_is_space"

definition iphone_tokens_u :: "ustring \<Rightarrow> ustring option list" where
  "iphone_tokens_u title = map (\<lambda>m. u_group m 1) (u_finditer IPHONE_MODEL_RE_u title)"

definition normalize_iphone_token_u :: "ustring \<Rightarrow> ustring option" where
  "normalize_iphone_token_u token =
     (let t = u_re_sub WS_RUN_u (ustr '' '') (u_strip token) in
      case u_re_match IPHONE_TOKEN_RE_u t of
        None \<Rightarrow> None
      | Some m \<Rightarrow>
          (let num = u_fmt (u_group m 1);
               suf = u_str_lower (u_strip (case u_group m 2 of None \<Rightarrow> [] | Some x \<Rightarrow> x))
           in if suf = [] then Some (ustr ''iPhone '' @ num)
              else if suf = ustr ''pro max'' then Some (ustr ''iPhone '' @ num @ ustr '' Pro Max'')
              else if suf = ustr ''pro'' then Some (ustr ''iPhone '' @ num @ ustr '' Pro'')
              else if suf = ustr ''plus'' then Some (ustr ''iPhone '' @ num @ ustr '' Plus'')
              else if suf = ustr ''mini'' then Some (ustr ''iPhone '' @ num @ ustr '' Mini'')
              else if suf = ustr ''max'' then Some (ustr ''iPhone '' @ num @ ustr '' Max'')
              else None))"

section \<open>Specification-level notions\<close>

text \<open>A string occurs in another as a contiguous piece.\<close>

definition occurs_in :: "string \<Rightarrow> string \<Rightarrow> bool" where
  "occurs_in sub s = (\<exists>u v. s = u @ sub @ v)"

text \<open>
  The texts a pattern can consume, read off its syntax: assertions consume nothing. What a
  group can capture, and whether a group is set on every path through a pattern.
\<close>

fun lang :: "rx \<Rightarrow> string set" where
  "lang Eps = {[]}"
| "lang (Atom P) = {[c] | c. P c}"
| "lang (Seq a b) = {u @ v | u v. u \<in> lang a \<and> v \<in> lang b}"
| "lang (Alt a b) = lang a \<union> lang b"
| "lang (Opt a) = insert [] (lang a)"
| "lang (Rep lo hi P) =
     {w. (\<forall>c \<in> set w. P c) \<and> lo \<le> length w \<and> (case hi of None \<Rightarrow> True | Some h \<Rightarrow> length w \<le> h)}"
| "lang (Grp i a) = lang a"
| "lang WordB = {[]}"
| "lang Bol = {[]}"
| "lang Eol = {[]}"
| "lang (NotAhead a) = {[]}"

fun glang :: "nat \<Rightarrow> rx \<Rightarrow> string set" where
  "glang i (Seq a b) = glang i a \<union> glang i b"
| "glang i (Alt a b) = glang i a \<union> glang i b"
| "glang i (Opt a) = glang i a"
| "glang i (Grp j a) = (if i = j then lang a else {}) \<union> glang i a"
| "glang i r = {}"


text \<open>Patterns without assertions.\<close>

fun plain :: "rx \<Rightarrow> bool" where
  "plain (Seq a b) = (plain a \<and> plain b)"
| "plain (Alt a b) = (plain a \<and> plain b)"
| "plain (Opt a) = plain a"
| "plain (Grp i a) = plain a"
| "plain Eps = True"
| "plain (Atom P) = True"
| "plain (Rep lo hi P) = True"
| "plain r = False"

text \<open>
  A storage mention starts a text: two to four digits, at most one whitespace character,
  "GB" in any casing, and then the end of the text or a character that is not a word
  character. \<open>storage_at t i ds\<close>: such a mention with digits \<open>ds\<close> starts at position
  \<open>i\<close> of \<open>t\<close>.
\<close>

definition storage_here :: "string \<Rightarrow> string \<Rightarrow> bool" where
  "storage_here rest ds =
     (\<exists>ws gc bc post. rest = ds @ ws @ [gc, bc] @ post
        \<and> (\<forall>c \<in> set ds. is_digit c) \<and> 2 \<le> length ds \<and> length ds \<le> 4
        \<and> (\<forall>c \<in> set ws. is_space c) \<and> length ws \<le> 1
        \<and> lower gc = CHR ''g'' \<and> lower bc = CHR ''b''
        \<and> (case post of [] \<Rightarrow> True | c # _ \<Rightarrow> \<not> is_word c))"

definition storage_at :: "string \<Rightarrow> nat \<Rightarrow> string \<Rightarrow> bool" where
  "storage_at t i ds = (i \<le> length t \<and> storage_here (drop i t) ds)"

text \<open>Whitespace runs replaced by one space each: what \<^verbatim>\<open>re.sub(r'\s+', ' ', s)\<close>
  computes, as a recursion over the string.\<close>

function collapse :: "string \<Rightarrow> string" where
  "collapse [] = []"
| "collapse (c # cs) =
     (if is_space c then CHR '' '' # collapse (dropWhile is_space cs) else c # collapse cs)"
  by pat_completeness auto
termination
  by (relation "measure length") (auto simp: length_dropWhile_le less_Suc_eq_le)

text \<open>
  The models a title mentions, as the specification describes the scan: an optional brand,
  the family keyword, whitespace, a model number of one or two digits and an optional
  variant from the vocabulary of the family, the longest variant tried first, the words of
  a variant separated by whitespace and the whole bounded as a word. A mention is a model
  number with a variant, the variant in lower case with single spaces; a title that
  mentions one model several times mentions one distinct model.
\<close>

definition longest_first :: "string list \<Rightarrow> string list" where
  "longest_first vocabulary = rev (sort_key length vocabulary)"

fun words_rx :: "string list \<Rightarrow> rx list" where
  "words_rx [] = []"
| "words_rx [w] = [liti w]"
| "words_rx (w # ws) = liti w # Rep 1 None is_space # words_rx ws"

definition variant_rx :: "string \<Rightarrow> rx" where
  "variant_rx v = seqs (words_rx (split_ws v))"

definition mention_rx :: "string \<Rightarrow> string \<Rightarrow> string list \<Rightarrow> rx" where
  "mention_rx brand family vocabulary = seqs
     [Opt (seqs [liti brand, Rep 1 None is_space]),
      liti family, Rep 1 None is_space,
      Grp 1 (Rep 1 (Some 2) is_digit),
      Opt (seqs [Rep 0 None is_space, Grp 2 (alts (map variant_rx (longest_first vocabulary)))]),
      WordB]"

definition mentioned :: "string \<Rightarrow> string \<Rightarrow> string list \<Rightarrow> string \<Rightarrow> (string \<times> string) list" where
  "mentioned brand family vocabulary title =
     remdups (map (\<lambda>m. (fmt (group m 1),
                         str_lower (collapse (case group m 2 of None \<Rightarrow> [] | Some v \<Rightarrow> v))))
                (finditer (mention_rx brand family vocabulary) title))"

definition PIXEL_VOCABULARY :: "string list" where
  "PIXEL_VOCABULARY = [''Pro'', ''XL'', ''Pro XL'', ''a'']"

definition mentioned_pixels :: "string \<Rightarrow> (string \<times> string) list" where
  "mentioned_pixels title = mentioned ''Google'' ''Pixel'' PIXEL_VOCABULARY title"






text \<open>An example run: a library that parses one date text, a frame of three listings
  and a directory that holds it as its only file.\<close>

type_synonym ymd = "nat \<times> nat \<times> nat"

definition example_library :: "ymd library" where
  "example_library =
     \<lparr>to_datetime = (\<lambda>xs i. if xs ! i = ''Oct 21, 2025'' then Stamp (2025, 10, 21) else NaT),
      stamp_str = (\<lambda>d. ''2025-10-21''),
      contains_nocase = (\<lambda>pat s. str_in (str_lower pat) (str_lower s)),
      casefold = str_lower\<rparr>"

definition example_frame :: "ymd frame" where
  "example_frame =
     \<lparr>columns = [''Title'', ''Sold Date''],
      rows = [[(''Title'', Str ''Google Pixel 9 128GB''), (''Sold Date'', Str ''Sold Oct 21, 2025'')],
              [(''Title'', Str ''Pixel 9 Excellent''), (''Sold Date'', Str ''Sold SomeGarbage'')],
              [(''Title'', Str ''Pixel 8 case''), (''Sold Date'', Str ''Sold Oct 21, 2025'')]]\<rparr>"

definition example_world :: "ymd world" where
  "example_world = \<lparr>files = [(''pixel 9.csv'', example_frame)], stdout = []\<rparr>"


definition sel :: "bool list \<Rightarrow> 'a list \<Rightarrow> 'a list" where
  "sel keep xs = map fst (filter snd (zip xs keep))"





section \<open>Verified properties\<close>

subsection \<open>Substring tests\<close>

lemma starts_with_iff: "starts_with p s \<longleftrightarrow> (\<exists>v. s = p @ v)"
  by (induction p s rule: starts_with.induct) auto

lemma str_in_iff: "str_in sub s \<longleftrightarrow> (\<exists>u v. s = u @ sub @ v)"
proof (induction s)
  case Nil
  then show ?case by auto
next
  case (Cons c cs)
  show ?case
  proof
    assume "str_in sub (c # cs)"
    then consider "starts_with sub (c # cs)" | "str_in sub cs" by auto
    then show "\<exists>u v. c # cs = u @ sub @ v"
    proof cases
      case 1
      then obtain v where "c # cs = sub @ v" by (auto simp: starts_with_iff)
      then have "c # cs = [] @ sub @ v" by simp
      then show ?thesis by blast
    next
      case 2
      then obtain u v where "cs = u @ sub @ v" using Cons.IH by blast
      then have "c # cs = (c # u) @ sub @ v" by simp
      then show ?thesis by blast
    qed
  next
    assume "\<exists>u v. c # cs = u @ sub @ v"
    then obtain u v where uv: "c # cs = u @ sub @ v" by blast
    show "str_in sub (c # cs)"
    proof (cases u)
      case Nil
      then have "starts_with sub (c # cs)" using uv by (auto simp: starts_with_iff)
      then show ?thesis by simp
    next
      case (Cons a u')
      then have "cs = u' @ sub @ v" using uv by simp
      then have "str_in sub cs" using Cons.IH by blast
      then show ?thesis by simp
    qed
  qed
qed

subsection \<open>Condition extraction\<close>

text \<open>
  C6. For every title, \<open>extract_condition\<close> follows a fixed priority chain of
  case-sensitive substring tests: Excellent if the title contains "Excellent", else
  Very Good if it contains "Very", else Good if it contains "Good", else Unknown. A title
  that contains both "Excellent" and "Good" yields Excellent.
\<close>

theorem extract_condition_priority:
  "extract_condition title =
     (if occurs_in ''Excellent'' title then ''Excellent''
      else if occurs_in ''Very'' title then ''Very Good''
      else if occurs_in ''Good'' title then ''Good''
      else ''Unknown'')
   \<and> (occurs_in ''Excellent'' title \<and> occurs_in ''Good'' title
        \<longrightarrow> extract_condition title = ''Excellent'')"
  unfolding extract_condition_def occurs_in_def str_in_iff by simp

theorem extract_condition_priority_witness:
  "occurs_in ''Excellent'' ''Good, Excellent phone''
   \<and> occurs_in ''Good'' ''Good, Excellent phone''
   \<and> extract_condition ''Good, Excellent phone'' = ''Excellent''"
proof -
  have a: "occurs_in ''Excellent'' ''Good, Excellent phone''"
    unfolding occurs_in_def by (rule exI[of _ "''Good, ''"], rule exI[of _ "'' phone''"]) simp
  have b: "occurs_in ''Good'' ''Good, Excellent phone''"
    unfolding occurs_in_def by (rule exI[of _ "[]"], rule exI[of _ "'', Excellent phone''"]) simp
  show ?thesis using a b extract_condition_priority[of "''Good, Excellent phone''"] by simp
qed

subsection \<open>Facts about the matcher\<close>

lemma set_mt_Seq: "set (mt (Seq a b) s) = (\<Union>s' \<in> set (mt a s). set (mt b s'))"
  by simp

lemma take_takeWhile_all:
  "k \<le> length (takeWhile P xs) \<Longrightarrow> (\<forall>c \<in> set (take k xs). P c) \<and> length (take k xs) = k"
proof (induction xs arbitrary: k)
  case Nil
  then show ?case by simp
next
  case (Cons x xs)
  then show ?case by (cases k) (auto split: if_splits)
qed

lemma mt_sound:
  "(p', r', g') \<in> set (mt r (p, rs, g)) \<Longrightarrow> \<exists>w \<in> lang r. rs = w @ r' \<and> p' = rev w @ p"
proof (induction r arbitrary: p rs g p' r' g')
  case Eps
  then show ?case by simp
next
  case (Atom P)
  then show ?case by (auto split: list.splits if_splits)
next
  case (Seq a b)
  from Seq.prems obtain p1 r1 g1 where
    1: "(p1, r1, g1) \<in> set (mt a (p, rs, g))" and 2: "(p', r', g') \<in> set (mt b (p1, r1, g1))"
    by auto
  from Seq.IH(1)[OF 1] obtain u where u: "u \<in> lang a" "rs = u @ r1" "p1 = rev u @ p" by blast
  from Seq.IH(2)[OF 2] obtain v where v: "v \<in> lang b" "r1 = v @ r'" "p' = rev v @ p1" by blast
  have "u @ v \<in> lang (Seq a b)" using u v by auto
  moreover have "rs = (u @ v) @ r'" "p' = rev (u @ v) @ p" using u v by auto
  ultimately show ?case by blast
next
  case (Alt a b)
  from Alt.prems consider "(p', r', g') \<in> set (mt a (p, rs, g))" | "(p', r', g') \<in> set (mt b (p, rs, g))"
    by auto
  then show ?case
  proof cases
    case 1
    from Alt.IH(1)[OF 1] show ?thesis by auto
  next
    case 2
    from Alt.IH(2)[OF 2] show ?thesis by auto
  qed
next
  case (Opt a)
  from Opt.prems consider "(p', r', g') \<in> set (mt a (p, rs, g))" | "(p', r', g') = (p, rs, g)"
    by auto
  then show ?case
  proof cases
    case 1
    from Opt.IH[OF 1] show ?thesis by auto
  next
    case 2
    then show ?thesis by auto
  qed
next
  case (Rep lo hi P)
  from Rep.prems obtain k where k: "lo \<le> k"
      "k \<le> (case hi of None \<Rightarrow> length (takeWhile P rs) | Some h \<Rightarrow> min h (length (takeWhile P rs)))"
      "p' = rev (take k rs) @ p" "r' = drop k rs"
    by (auto simp: Let_def)
  have kn: "k \<le> length (takeWhile P rs)" using k(2) by (auto split: option.splits)
  have "\<forall>c \<in> set (take k rs). P c" "length (take k rs) = k"
    using take_takeWhile_all[OF kn] by auto
  then have "take k rs \<in> lang (Rep lo hi P)" using k(1,2) by (auto split: option.splits)
  moreover have "rs = take k rs @ r'" using k(4) by simp
  ultimately show ?case using k(3) by blast
next
  case (Grp i a)
  from Grp.prems obtain g0 where "(p', r', g0) \<in> set (mt a (p, rs, g))" by auto
  from Grp.IH[OF this] show ?case by auto
next
  case WordB
  then show ?case by (auto split: if_splits)
next
  case Bol
  then show ?case by (auto split: if_splits)
next
  case Eol
  then show ?case by (auto split: if_splits)
next
  case (NotAhead a)
  then show ?case by (auto split: if_splits)
qed


lemma mt_groups:
  "(p', r', g') \<in> set (mt r (p, rs, g)) \<Longrightarrow> g' i = g i \<or> (\<exists>w \<in> glang i r. g' i = Some w)"
proof (induction r arbitrary: p rs g p' r' g')
  case (Seq a b)
  from Seq.prems obtain p1 r1 g1 where
    1: "(p1, r1, g1) \<in> set (mt a (p, rs, g))" and 2: "(p', r', g') \<in> set (mt b (p1, r1, g1))"
    by auto
  from Seq.IH(1)[OF 1] Seq.IH(2)[OF 2] show ?case by auto
next
  case (Alt a b)
  from Alt.prems consider "(p', r', g') \<in> set (mt a (p, rs, g))" | "(p', r', g') \<in> set (mt b (p, rs, g))"
    by auto
  then show ?case
  proof cases
    case 1
    from Alt.IH(1)[OF 1] show ?thesis by auto
  next
    case 2
    from Alt.IH(2)[OF 2] show ?thesis by auto
  qed
next
  case (Opt a)
  from Opt.prems consider "(p', r', g') \<in> set (mt a (p, rs, g))" | "(p', r', g') = (p, rs, g)"
    by auto
  then show ?case
  proof cases
    case 1
    from Opt.IH[OF 1] show ?thesis by auto
  next
    case 2
    then show ?thesis by auto
  qed
next
  case (Grp j a)
  from Grp.prems obtain g0 where g0: "(p', r', g0) \<in> set (mt a (p, rs, g))"
    and g': "g' = g0(j \<mapsto> take (length rs - length r') rs)" by auto
  from mt_sound[OF g0] obtain w where w: "w \<in> lang a" "rs = w @ r'" by blast
  then have tk: "take (length rs - length r') rs = w" by simp
  show ?case
  proof (cases "i = j")
    case True
    then show ?thesis using g' tk w(1) by auto
  next
    case False
    then show ?thesis using g' Grp.IH[OF g0] by auto
  qed
next
  case (Rep lo hi P)
  then show ?case by (auto simp: Let_def simp del: upt_Suc)
next
  case (Atom P)
  then show ?case by (auto split: list.splits if_splits)
qed (auto split: if_splits)


lemma takeWhile_prefix_len:
  "\<forall>c \<in> set w. P c \<Longrightarrow> length w \<le> length (takeWhile P (w @ rest))"
  by (induction w) auto

lemma mt_complete:
  "plain r \<Longrightarrow> w \<in> lang r \<Longrightarrow> \<exists>g'. (rev w @ p, rest, g') \<in> set (mt r (p, w @ rest, g))"
proof (induction r arbitrary: w p rest g)
  case (Seq a b)
  from Seq.prems obtain u v where uv: "w = u @ v" "u \<in> lang a" "v \<in> lang b" by auto
  from Seq.IH(1)[of u p "v @ rest" g] Seq.prems(1) uv(2)
  obtain g1 where 1: "(rev u @ p, v @ rest, g1) \<in> set (mt a (p, u @ v @ rest, g))" by auto
  from Seq.IH(2)[of v "rev u @ p" rest g1] Seq.prems(1) uv(3)
  obtain g2 where 2: "(rev v @ rev u @ p, rest, g2) \<in> set (mt b (rev u @ p, v @ rest, g1))" by auto
  from 1 2 have "(rev v @ rev u @ p, rest, g2) \<in> set (mt (Seq a b) (p, u @ v @ rest, g))"
    by (simp del: mt.simps(2) mt.simps(6) mt.simps(7)) blast
  then show ?case using uv(1) by auto
next
  case (Alt a b)
  from Alt.prems consider "w \<in> lang a" | "w \<in> lang b" by auto
  then show ?case
  proof cases
    case 1
    from Alt.IH(1)[OF _ 1, of p rest g] Alt.prems(1) show ?thesis by auto
  next
    case 2
    from Alt.IH(2)[OF _ 2, of p rest g] Alt.prems(1) show ?thesis by auto
  qed
next
  case (Opt a)
  from Opt.prems consider "w \<in> lang a" | "w = []" by auto
  then show ?case
  proof cases
    case 1
    from Opt.IH[OF _ 1, of p rest g] Opt.prems(1) show ?thesis by auto
  next
    case 2
    then show ?thesis by auto
  qed
next
  case (Rep lo hi P)
  from Rep.prems have w: "\<forall>c \<in> set w. P c" "lo \<le> length w"
    "case hi of None \<Rightarrow> True | Some h \<Rightarrow> length w \<le> h" by auto
  let ?n = "length (takeWhile P (w @ rest))"
  let ?m = "case hi of None \<Rightarrow> ?n | Some h \<Rightarrow> min h ?n"
  have "length w \<le> ?n" using takeWhile_prefix_len[OF w(1)] .
  then have "length w \<le> ?m" using w(3) by (auto split: option.splits)
  then have mem: "length w \<in> set (rev [lo ..< Suc ?m])" using w(2) by auto
  let ?f = "\<lambda>k. (rev (take k (w @ rest)) @ p, drop k (w @ rest), g)"
  have eq: "mt (Rep lo hi P) (p, w @ rest, g) = map ?f (rev [lo ..< Suc ?m])"
    by (simp only: mt.simps Let_def)
  have "?f (length w) \<in> set (map ?f (rev [lo ..< Suc ?m]))"
    using mem by (simp only: set_map) (rule imageI)
  then have "(rev w @ p, rest, g) \<in> set (mt (Rep lo hi P) (p, w @ rest, g))"
    unfolding eq by simp
  then show ?case by auto
next
  case (Grp i a)
  from Grp.IH[of w p rest g] Grp.prems
  obtain g1 where "(rev w @ p, rest, g1) \<in> set (mt a (p, w @ rest, g))" by auto
  then have "(rev w @ p, rest, g1(i \<mapsto> take (length (w @ rest) - length rest) (w @ rest)))
      \<in> set (mt (Grp i a) (p, w @ rest, g))"
    by (simp del: mt.simps(2) mt.simps(6)) force
  then show ?case by blast
qed auto

declare finditer_from.simps [simp del]




subsection \<open>Single model or none\<close>

lemma fromkeys_aux:
  "distinct acc \<Longrightarrow>
   distinct (foldl (\<lambda>acc x. if x \<in> set acc then acc else acc @ [x]) acc xs)
   \<and> set (foldl (\<lambda>acc x. if x \<in> set acc then acc else acc @ [x]) acc xs) = set acc \<union> set xs"
  by (induction xs arbitrary: acc) auto

lemma fromkeys_distinct: "distinct (fromkeys xs)"
  unfolding fromkeys_def using fromkeys_aux[of "[]" xs] by simp

lemma fromkeys_set: "set (fromkeys xs) = set xs"
  unfolding fromkeys_def using fromkeys_aux[of "[]" xs] by simp

lemma single_or_none_one: "set ms = {c} \<Longrightarrow> single_or_none ms = Some c"
proof -
  assume a: "set ms = {c}"
  have "length (fromkeys ms) = card (set ms)"
    using distinct_card[OF fromkeys_distinct, of ms] fromkeys_set[of ms] by simp
  then have len: "length (fromkeys ms) = 1" using a by simp
  then obtain x where x: "fromkeys ms = [x]" by (cases "fromkeys ms") auto
  then have "x = c" using fromkeys_set[of ms] a by auto
  then show ?thesis using x by (simp add: single_or_none_def)
qed

lemma single_or_none_other: "card (set ms) \<noteq> 1 \<Longrightarrow> single_or_none ms = None"
proof -
  assume a: "card (set ms) \<noteq> 1"
  have "length (fromkeys ms) = card (set ms)"
    using distinct_card[OF fromkeys_distinct, of ms] fromkeys_set[of ms] by simp
  then show ?thesis using a by (simp add: single_or_none_def)
qed







text \<open>
  C1. A title that mentions exactly one distinct model should give that model, and a title
  that mentions none or at least two distinct models should give \<open>None\<close>. The title
  "Pixel 9 Pro and Pixel 9 Pro XL case" mentions two distinct models, Pixel 9 Pro and
  Pixel 9 Pro XL. \<open>extract_single_model_or_none\<close> of \<^verbatim>\<open>pixel_all_only.py\<close>, whose pattern
  tries "Pro" before "Pro XL", captures "9 Pro" twice and returns "Pixel 9 Pro"; the
  extractor of \<^verbatim>\<open>test.py\<close>, whose pattern tries "Pro XL" first, returns \<open>None\<close>.
\<close>

lemma two_mentioned:
  "mentioned_pixels ''Pixel 9 Pro and Pixel 9 Pro XL case'' = [(''9'', ''pro''), (''9'', ''pro xl'')]"
  by code_simp

lemma two_mentioned_tokens:
  "map (\<lambda>m. group m 1) (finditer MODEL_RE ''Pixel 9 Pro and Pixel 9 Pro XL case'')
     = [Some ''9 Pro'', Some ''9 Pro'']"
  by code_simp

lemma two_mentioned_one_returned:
  "extract_single_model_or_none ''Pixel 9 Pro and Pixel 9 Pro XL case'' = Inr (Some ''Pixel 9 Pro'')"
  by code_simp

lemma two_mentioned_sibling:
  "extract_single_model_or_none_test ''Pixel 9 Pro and Pixel 9 Pro XL case'' = Inr None"
  by code_simp

theorem two_models_mentioned_one_returned:
  "mentioned_pixels ''Pixel 9 Pro and Pixel 9 Pro XL case'' = [(''9'', ''pro''), (''9'', ''pro xl'')]
   \<and> map (\<lambda>m. group m 1) (finditer MODEL_RE ''Pixel 9 Pro and Pixel 9 Pro XL case'')
        = [Some ''9 Pro'', Some ''9 Pro'']
   \<and> extract_single_model_or_none ''Pixel 9 Pro and Pixel 9 Pro XL case'' = Inr (Some ''Pixel 9 Pro'')
   \<and> extract_single_model_or_none_test ''Pixel 9 Pro and Pixel 9 Pro XL case'' = Inr None"
  by (intro conjI two_mentioned two_mentioned_tokens two_mentioned_one_returned two_mentioned_sibling)

subsection \<open>Longest variant first\<close>

text \<open>
  C2. Normalization should prefer the longest variant suffix and render one canonical
  string whatever the casing: a title whose only model mention is "Pixel 9 Pro XL" should
  give "Pixel 9 Pro XL". The pattern of \<^verbatim>\<open>pixel_all_only.py\<close> lists "Pro" before
  "Pro XL", so the extractor there returns the truncated "Pixel 9 Pro" for each casing;
  the pattern of \<^verbatim>\<open>test.py\<close>, which lists "Pro XL" first, returns "Pixel 9 Pro XL".
\<close>

lemma pro_xl_mixed: "extract_single_model_or_none ''Google Pixel 9 Pro XL 256GB'' = Inr (Some ''Pixel 9 Pro'')"
  by code_simp

lemma pro_xl_lower: "extract_single_model_or_none ''pixel 9 pro xl'' = Inr (Some ''Pixel 9 Pro'')"
  by code_simp

lemma pro_xl_upper: "extract_single_model_or_none ''PIXEL 9 PRO XL'' = Inr (Some ''Pixel 9 Pro'')"
  by code_simp

lemma pro_xl_sibling:
  "extract_single_model_or_none_test ''Google Pixel 9 Pro XL 256GB'' = Inr (Some ''Pixel 9 Pro XL'')"
  by code_simp

theorem pixel_pro_xl_is_truncated:
  "extract_single_model_or_none ''Google Pixel 9 Pro XL 256GB'' = Inr (Some ''Pixel 9 Pro'')
   \<and> extract_single_model_or_none ''pixel 9 pro xl'' = Inr (Some ''Pixel 9 Pro'')
   \<and> extract_single_model_or_none ''PIXEL 9 PRO XL'' = Inr (Some ''Pixel 9 Pro'')
   \<and> extract_single_model_or_none_test ''Google Pixel 9 Pro XL 256GB'' = Inr (Some ''Pixel 9 Pro XL'')"
  using pro_xl_mixed pro_xl_lower pro_xl_upper pro_xl_sibling by simp

subsection \<open>Character classes\<close>

lemma code_lower: "code (lower c) = (if is_upper c then code c + 32 else code c)"
  by (cases c) (auto simp: code_def is_upper_def lower_def)

lemma code_inj: "code c = code d \<longleftrightarrow> c = d"
  by (simp add: code_def)

lemma is_word_code:
  "is_word c = (is_alpha c \<or> is_digit c \<or> code c \<in> {178, 179, 185, 188, 189, 190} \<or> code c = 95)"
proof -
  have "c = CHR ''_'' \<longleftrightarrow> code c = 95" using code_inj[of c "CHR ''_''"] by (simp add: code_def)
  then show ?thesis by (simp add: is_word_def)
qed

lemmas cls = is_space_def is_digit_def is_upper_def is_alpha_def is_word_code

lemma lower_digit [simp]: "is_digit (lower c) = is_digit c"
  unfolding is_digit_def code_lower is_upper_def by auto


lemma lower_word [simp]: "is_word (lower c) = is_word c"
  unfolding is_word_code is_alpha_def is_digit_def code_lower is_upper_def by auto

lemma lower_idem [simp]: "lower (lower c) = lower c"
  unfolding code_inj[symmetric] code_lower is_upper_def by auto

lemma digit_not_space: "is_digit c \<Longrightarrow> \<not> is_space c"
  by (auto simp: cls)

lemma digit_word: "is_digit c \<Longrightarrow> is_word c"
  by (auto simp: cls)

lemma space_not_word: "is_space c \<Longrightarrow> \<not> is_word c"
  by (auto simp: cls)

subsection \<open>Searching\<close>

lemma match_here_None: "match_here r pre rest = None \<longleftrightarrow> mt r (pre, rest, no_groups) = []"
  by (auto simp: match_here_def split: list.splits)

lemma search_from_None_iff:
  "search_from r pre rest = None
   \<longleftrightarrow> (\<forall>k \<le> length rest. mt r (rev (take k rest) @ pre, drop k rest, no_groups) = [])"
proof (induction rest arbitrary: pre)
  case Nil
  then show ?case by (simp add: match_here_None)
next
  case (Cons c cs)
  have "search_from r pre (c # cs) = None
      \<longleftrightarrow> mt r (pre, c # cs, no_groups) = [] \<and> search_from r (c # pre) cs = None"
    using match_here_None[of r pre "c # cs"] by (auto split: option.splits)
  also have "\<dots> \<longleftrightarrow> mt r (pre, c # cs, no_groups) = []
      \<and> (\<forall>k \<le> length cs. mt r (rev (take k cs) @ c # pre, drop k cs, no_groups) = [])"
    using Cons.IH[of "c # pre"] by simp
  also have "\<dots> \<longleftrightarrow> (\<forall>k \<le> length (c # cs).
        mt r (rev (take k (c # cs)) @ pre, drop k (c # cs), no_groups) = [])"
  proof
    assume a: "mt r (pre, c # cs, no_groups) = []
      \<and> (\<forall>k \<le> length cs. mt r (rev (take k cs) @ c # pre, drop k cs, no_groups) = [])"
    show "\<forall>k \<le> length (c # cs). mt r (rev (take k (c # cs)) @ pre, drop k (c # cs), no_groups) = []"
    proof (intro allI impI)
      fix k assume "k \<le> length (c # cs)"
      then show "mt r (rev (take k (c # cs)) @ pre, drop k (c # cs), no_groups) = []"
        using a by (cases k) auto
    qed
  next
    assume b: "\<forall>k \<le> length (c # cs). mt r (rev (take k (c # cs)) @ pre, drop k (c # cs), no_groups) = []"
    have "mt r (pre, c # cs, no_groups) = []" using b[rule_format, of 0] by simp
    moreover have "\<forall>k \<le> length cs. mt r (rev (take k cs) @ c # pre, drop k cs, no_groups) = []"
    proof (intro allI impI)
      fix k assume "k \<le> length cs"
      then show "mt r (rev (take k cs) @ c # pre, drop k cs, no_groups) = []"
        using b[rule_format, of "Suc k"] by simp
    qed
    ultimately show "mt r (pre, c # cs, no_groups) = []
      \<and> (\<forall>k \<le> length cs. mt r (rev (take k cs) @ c # pre, drop k cs, no_groups) = [])" by blast
  qed
  finally show ?case .
qed

lemma search_from_Some:
  "search_from r pre rest = Some m
   \<Longrightarrow> \<exists>k \<le> length rest.
         (\<forall>j < k. mt r (rev (take j rest) @ pre, drop j rest, no_groups) = [])
         \<and> match_here r (rev (take k rest) @ pre) (drop k rest) = Some m"
proof (induction rest arbitrary: pre)
  case Nil
  then show ?case by simp
next
  case (Cons c cs)
  show ?case
  proof (cases "match_here r pre (c # cs)")
    case (Some m')
    then have "m' = m" using Cons.prems by simp
    then have "match_here r (rev (take 0 (c # cs)) @ pre) (drop 0 (c # cs)) = Some m"
      using Some by simp
    then show ?thesis by (intro exI[of _ 0]) simp
  next
    case None
    then have "search_from r (c # pre) cs = Some m" using Cons.prems by simp
    from Cons.IH[OF this] obtain k where k: "k \<le> length cs"
      "\<forall>j < k. mt r (rev (take j cs) @ c # pre, drop j cs, no_groups) = []"
      "match_here r (rev (take k cs) @ c # pre) (drop k cs) = Some m" by blast
    have "\<forall>j < Suc k. mt r (rev (take j (c # cs)) @ pre, drop j (c # cs), no_groups) = []"
    proof (intro allI impI)
      fix j assume "j < Suc k"
      then show "mt r (rev (take j (c # cs)) @ pre, drop j (c # cs), no_groups) = []"
        using k(2) None match_here_None[of r pre "c # cs"] by (cases j) auto
    qed
    moreover have "match_here r (rev (take (Suc k) (c # cs)) @ pre) (drop (Suc k) (c # cs)) = Some m"
      using k(3) by simp
    ultimately show ?thesis using k(1) by (intro exI[of _ "Suc k"]) simp
  qed
qed

subsection \<open>Storage extraction\<close>

lemma mt_SeqE:
  assumes "s' \<in> set (mt (Seq a b) s)"
  obtains s1 where "s1 \<in> set (mt a s)" "s' \<in> set (mt b s1)"
  using assms by auto

lemma mt_SeqI: "s1 \<in> set (mt a s) \<Longrightarrow> s' \<in> set (mt b s1) \<Longrightarrow> s' \<in> set (mt (Seq a b) s)"
  by auto

lemma mt_Grp_captured:
  assumes "(p', r', g') \<in> set (mt (Grp i a) (p, rs, g))"
  shows "\<exists>w \<in> lang a. rs = w @ r' \<and> p' = rev w @ p \<and> g' i = Some w"
proof -
  from assms obtain g0 where g0: "(p', r', g0) \<in> set (mt a (p, rs, g))"
    and g': "g' = g0(i \<mapsto> take (length rs - length r') rs)" by auto
  from mt_sound[OF g0] obtain w where w: "w \<in> lang a" "rs = w @ r'" "p' = rev w @ p" by blast
  then have "take (length rs - length r') rs = w" by simp
  then show ?thesis using w g' by auto
qed

lemma lower_G: "lower CHR ''G'' = CHR ''g''" "lower CHR ''B'' = CHR ''b''"
  by (simp_all add: lower_def is_upper_def code_def)

lemma STORAGE_RE_unfold:
  "STORAGE_RE = Seq (Grp 1 (Rep 2 (Some 4) is_digit))
     (Seq (Rep 0 (Some 1) is_space)
       (Seq (Seq (Atom (\<lambda>x. lower x = CHR ''g'')) (Atom (\<lambda>x. lower x = CHR ''b''))) WordB))"
  by (simp add: STORAGE_RE_def liti_def lower_G)

lemma storage_sound:
  assumes "(p', r', g') \<in> set (mt STORAGE_RE (pre, rest, g))"
  shows "\<exists>ds. storage_here rest ds \<and> g' 1 = Some ds"
proof -
  let ?D = "Rep 2 (Some 4) is_digit" and ?W = "Rep 0 (Some 1) is_space"
  let ?L = "Seq (Atom (\<lambda>x. lower x = CHR ''g'')) (Atom (\<lambda>x. lower x = CHR ''b''))"
  from assms[unfolded STORAGE_RE_unfold] obtain s1 where
    s1: "s1 \<in> set (mt (Grp 1 ?D) (pre, rest, g))" and
    t1: "(p', r', g') \<in> set (mt (Seq ?W (Seq ?L WordB)) s1)" by (rule mt_SeqE)
  obtain p1 r1 g1 where e1: "s1 = (p1, r1, g1)" by (cases s1) auto
  from mt_Grp_captured[OF s1[unfolded e1]] obtain ds where
    ds: "ds \<in> lang ?D" "rest = ds @ r1" "p1 = rev ds @ pre" "g1 1 = Some ds" by blast
  from t1 obtain s2 where
    s2: "s2 \<in> set (mt ?W s1)" and t2: "(p', r', g') \<in> set (mt (Seq ?L WordB) s2)" by (rule mt_SeqE)
  obtain p2 r2 g2 where e2: "s2 = (p2, r2, g2)" by (cases s2) auto
  from mt_sound[OF s2[unfolded e1 e2]] obtain ws where
    ws: "ws \<in> lang ?W" "r1 = ws @ r2" "p2 = rev ws @ p1" by blast
  from mt_groups[OF s2[unfolded e1 e2], of 1] have g2: "g2 1 = g1 1" by simp
  from t2 obtain s3 where
    s3: "s3 \<in> set (mt ?L s2)" and t3: "(p', r', g') \<in> set (mt WordB s3)" by (rule mt_SeqE)
  obtain p3 r3 g3 where e3: "s3 = (p3, r3, g3)" by (cases s3) auto
  from mt_sound[OF s3[unfolded e2 e3]] obtain gb where
    gb: "gb \<in> lang ?L" "r2 = gb @ r3" "p3 = rev gb @ p2" by blast
  from mt_groups[OF s3[unfolded e2 e3], of 1] have g3: "g3 1 = g2 1" by simp
  from gb(1) obtain gc bc where gcbc: "gb = [gc, bc]" "lower gc = CHR ''g''" "lower bc = CHR ''b''"
    by auto
  from t3[unfolded e3] have fin: "g' = g3" "at_boundary p3 r3" by (auto split: if_splits)
  have "is_word bc" using lower_word[of bc] gcbc(3) by (simp add: is_word_def is_alpha_def code_def)
  then have post: "case r3 of [] \<Rightarrow> True | c # _ \<Rightarrow> \<not> is_word c"
    using fin(2) gb(3) gcbc(1) by (auto simp: at_boundary_def split: list.splits)
  have "rest = ds @ ws @ [gc, bc] @ r3" using ds(2) ws(2) gb(2) gcbc(1) by simp
  moreover have "(\<forall>c \<in> set ds. is_digit c) \<and> 2 \<le> length ds \<and> length ds \<le> 4" using ds(1) by auto
  moreover have "(\<forall>c \<in> set ws. is_space c) \<and> length ws \<le> 1" using ws(1) by auto
  ultimately have "storage_here rest ds"
    unfolding storage_here_def using gcbc(2,3) post by blast
  moreover have "g' 1 = Some ds" using fin(1) g3 g2 ds(4) by simp
  ultimately show ?thesis by blast
qed

lemma storage_complete:
  assumes "storage_here rest ds"
  shows "mt STORAGE_RE (pre, rest, g) \<noteq> []"
proof -
  let ?D = "Rep 2 (Some 4) is_digit" and ?W = "Rep 0 (Some 1) is_space"
  let ?L = "Seq (Atom (\<lambda>x. lower x = CHR ''g'')) (Atom (\<lambda>x. lower x = CHR ''b''))"
  from assms obtain ws gc bc post where h:
    "rest = ds @ ws @ [gc, bc] @ post" "\<forall>c \<in> set ds. is_digit c" "2 \<le> length ds" "length ds \<le> 4"
    "\<forall>c \<in> set ws. is_space c" "length ws \<le> 1" "lower gc = CHR ''g''" "lower bc = CHR ''b''"
    "case post of [] \<Rightarrow> True | c # _ \<Rightarrow> \<not> is_word c"
    unfolding storage_here_def by blast
  have l1: "ds \<in> lang (Grp 1 ?D)" using h(2,3,4) by simp
  have p1: "plain (Grp 1 ?D)" by simp
  from mt_complete[OF p1 l1, of pre "ws @ [gc, bc] @ post" g] obtain g1 where
    1: "(rev ds @ pre, ws @ [gc, bc] @ post, g1) \<in> set (mt (Grp 1 ?D) (pre, rest, g))"
    unfolding h(1) by blast
  have l2: "ws \<in> lang ?W" using h(5,6) by simp
  have p2: "plain ?W" by simp
  from mt_complete[OF p2 l2, of "rev ds @ pre" "[gc, bc] @ post" g1] obtain g2 where
    2: "(rev ws @ rev ds @ pre, [gc, bc] @ post, g2)
          \<in> set (mt ?W (rev ds @ pre, ws @ [gc, bc] @ post, g1))" by blast
  have l3: "[gc, bc] \<in> lang ?L"
    using h(7,8) by (simp, intro exI[of _ "[gc]"] exI[of _ "[bc]"]) simp
  have p3: "plain ?L" by simp
  from mt_complete[OF p3 l3, of "rev ws @ rev ds @ pre" post g2] obtain g3 where
    3: "(rev [gc, bc] @ rev ws @ rev ds @ pre, post, g3)
          \<in> set (mt ?L (rev ws @ rev ds @ pre, [gc, bc] @ post, g2))" by blast
  have "is_word bc" using lower_word[of bc] h(8) by (simp add: is_word_def is_alpha_def code_def)
  then have "at_boundary (rev [gc, bc] @ rev ws @ rev ds @ pre) post"
    using h(9) by (auto simp: at_boundary_def split: list.splits)
  then have 4: "(rev [gc, bc] @ rev ws @ rev ds @ pre, post, g3)
      \<in> set (mt WordB (rev [gc, bc] @ rev ws @ rev ds @ pre, post, g3))" by simp
  have "(rev [gc, bc] @ rev ws @ rev ds @ pre, post, g3) \<in> set (mt STORAGE_RE (pre, rest, g))"
    unfolding STORAGE_RE_unfold
    by (rule mt_SeqI[OF 1], rule mt_SeqI[OF 2], rule mt_SeqI[OF 3], rule 4)
  then show ?thesis by auto
qed

lemma storage_here_digits:
  assumes "storage_here rest ds"
  shows "ds = takeWhile is_digit rest"
proof -
  from assms obtain ws gc bc post where h:
    "rest = ds @ ws @ [gc, bc] @ post" "\<forall>c \<in> set ds. is_digit c"
    "\<forall>c \<in> set ws. is_space c" "lower gc = CHR ''g''"
    unfolding storage_here_def by blast
  have "\<not> is_digit gc" using lower_digit[of gc] h(4) by (simp add: is_digit_def code_def)
  then have "takeWhile is_digit (ws @ [gc, bc] @ post) = []"
    using h(3) by (cases ws) (auto dest: digit_not_space)
  then show ?thesis unfolding h(1) using h(2) by (simp add: takeWhile_append2)
qed

lemma storage_at_mt:
  "i \<le> length t \<Longrightarrow>
   mt STORAGE_RE (rev (take i t), drop i t, no_groups) \<noteq> [] \<longleftrightarrow> (\<exists>ds. storage_at t i ds)"
proof
  assume i: "i \<le> length t" and ne: "mt STORAGE_RE (rev (take i t), drop i t, no_groups) \<noteq> []"
  then obtain s' where "s' \<in> set (mt STORAGE_RE (rev (take i t), drop i t, no_groups))"
    by (cases "mt STORAGE_RE (rev (take i t), drop i t, no_groups)") auto
  moreover obtain p' r' g' where "s' = (p', r', g')" by (cases s') auto
  ultimately show "\<exists>ds. storage_at t i ds" using storage_sound i unfolding storage_at_def by blast
next
  assume "i \<le> length t" "\<exists>ds. storage_at t i ds"
  then show "mt STORAGE_RE (rev (take i t), drop i t, no_groups) \<noteq> []"
    using storage_complete unfolding storage_at_def by blast
qed

lemma extract_storage_none:
  assumes "\<forall>i ds. \<not> storage_at t i ds"
  shows "extract_storage t = ''Unknown''"
proof -
  have "\<forall>k \<le> length t. mt STORAGE_RE (rev (take k t) @ [], drop k t, no_groups) = []"
    using assms storage_at_mt[of _ t] by auto
  then have "re_search STORAGE_RE t = None"
    unfolding re_search_def search_from_None_iff by simp
  then show ?thesis by (simp add: extract_storage_def)
qed

lemma extract_storage_first:
  assumes at: "storage_at t i ds" and first: "\<forall>j < i. \<forall>ds'. \<not> storage_at t j ds'"
  shows "extract_storage t = ds @ '' GB''"
proof -
  have i: "i \<le> length t" using at by (simp add: storage_at_def)
  have nei: "mt STORAGE_RE (rev (take i t), drop i t, no_groups) \<noteq> []"
    using storage_at_mt[OF i] at by blast
  have "re_search STORAGE_RE t \<noteq> None"
    unfolding re_search_def search_from_None_iff using nei i by auto
  then obtain m where m: "search_from STORAGE_RE [] t = Some m" unfolding re_search_def by auto
  from search_from_Some[OF m] obtain k where k: "k \<le> length t"
    "\<forall>j < k. mt STORAGE_RE (rev (take j t) @ [], drop j t, no_groups) = []"
    "match_here STORAGE_RE (rev (take k t) @ []) (drop k t) = Some m" by blast
  have nek: "mt STORAGE_RE (rev (take k t), drop k t, no_groups) \<noteq> []"
    using k(3) match_here_None[of STORAGE_RE "rev (take k t)" "drop k t"] by auto
  have "\<not> i < k" using k(2) nei by auto
  moreover have "\<not> k < i" using first storage_at_mt[OF k(1)] nek by blast
  ultimately have ki: "k = i" by simp
  from nek obtain p' r' g' xs where hd: "mt STORAGE_RE (rev (take k t), drop k t, no_groups) = (p', r', g') # xs"
    by (cases "mt STORAGE_RE (rev (take k t), drop k t, no_groups)") auto
  then have "(p', r', g') \<in> set (mt STORAGE_RE (rev (take k t), drop k t, no_groups))" by simp
  from storage_sound[OF this] obtain ds' where ds': "storage_here (drop k t) ds'" "g' 1 = Some ds'"
    by blast
  have "ds' = ds" using storage_here_digits[OF ds'(1)] storage_here_digits[of "drop i t" ds] at ki
    by (simp add: storage_at_def)
  moreover have "group m 1 = g' 1" using k(3) hd by (auto simp: match_here_def group_def)
  ultimately show ?thesis using m ds'(2) by (simp add: extract_storage_def re_search_def fmt_def)
qed

text \<open>
  C7. For every title, \<open>extract_storage\<close> returns the digits of the leftmost storage
  mention (two to four digits, optional whitespace, "GB" in any casing, a word boundary
  after it) followed by " GB", and "Unknown" when the title has no such mention; "Apple
  iPhone 13 128GB Unlocked" gives "128 GB".
\<close>

theorem extract_storage_first_match:
  "((\<forall>i ds. \<not> storage_at t i ds) \<longrightarrow> extract_storage t = ''Unknown'')
   \<and> (storage_at t i ds \<and> (\<forall>j < i. \<forall>ds'. \<not> storage_at t j ds')
        \<longrightarrow> extract_storage t = ds @ '' GB'')
   \<and> extract_storage ''Apple iPhone 13 128GB Unlocked'' = ''128 GB''"
proof -
  have "extract_storage ''Apple iPhone 13 128GB Unlocked'' = ''128 GB''" by code_simp
  then show ?thesis using extract_storage_none[of t] extract_storage_first[of t i ds] by blast
qed

lemma all_less_upt: "(\<forall>j < n. P j) \<longleftrightarrow> (\<forall>j \<in> set [0 ..< n]. P j)"
  by auto

lemma all_le_upt: "(\<forall>j \<le> n. P j) \<longleftrightarrow> (\<forall>j \<in> set [0 ..< Suc n]. P j)"
  by auto

lemmas storage_eval = STORAGE_RE_unfold no_groups_def at_boundary_def
  is_digit_def is_space_def is_word_def is_alpha_def is_upper_def lower_def code_def

lemma storage_witness_none:
  "\<forall>i ds. \<not> storage_at ''Pixel 8 Pro Unlocked'' i ds"
proof -
  have "\<forall>k \<le> length ''Pixel 8 Pro Unlocked''.
      mt STORAGE_RE (rev (take k ''Pixel 8 Pro Unlocked''), drop k ''Pixel 8 Pro Unlocked'', no_groups) = []"
    unfolding all_le_upt by (simp add: storage_eval)
  then show ?thesis using storage_at_mt[of _ "''Pixel 8 Pro Unlocked''"]
    by (meson storage_at_def)
qed

lemma storage_witness_first:
  "storage_at ''iPhone 13 128 GB'' 10 ''128''
   \<and> (\<forall>j < 10. \<forall>ds'. \<not> storage_at ''iPhone 13 128 GB'' j ds')"
proof -
  have "''iPhone 13 128 GB'' = ''iPhone 13 '' @ ''128'' @ '' '' @ [CHR ''G'', CHR ''B''] @ []"
    by simp
  have a: "storage_here ''128 GB'' ''128''"
    unfolding storage_here_def
    by (intro exI[of _ "'' ''"] exI[of _ "CHR ''G''"] exI[of _ "CHR ''B''"] exI[of _ "[]"])
       (simp add: storage_eval)
  have b: "\<forall>k < length ''iPhone 13 ''.
      mt STORAGE_RE (rev (take k ''iPhone 13 128 GB''), drop k ''iPhone 13 128 GB'', no_groups) = []"
    unfolding all_less_upt by (simp add: storage_eval)
  have "\<forall>j < 10. \<forall>ds'. \<not> storage_at ''iPhone 13 128 GB'' j ds'"
  proof (intro allI impI)
    fix j :: nat and ds' assume j: "j < 10"
    then have "j \<le> length ''iPhone 13 128 GB''" by simp
    moreover have "j < length ''iPhone 13 ''" using j by simp
    ultimately show "\<not> storage_at ''iPhone 13 128 GB'' j ds'"
      using storage_at_mt[of j "''iPhone 13 128 GB''"] b by blast
  qed
  then show ?thesis using a by (simp add: storage_at_def)
qed

theorem extract_storage_first_match_witness:
  "(\<forall>i ds. \<not> storage_at ''Pixel 8 Pro Unlocked'' i ds)
   \<and> extract_storage ''Pixel 8 Pro Unlocked'' = ''Unknown''
   \<and> storage_at ''iPhone 13 128 GB'' 10 ''128''
   \<and> \<not> (\<exists>j ds'. j < 10 \<and> storage_at ''iPhone 13 128 GB'' j ds')
   \<and> extract_storage ''iPhone 13 128 GB'' = ''128 GB''"
proof -
  note n = storage_witness_none
  note f = storage_witness_first
  have e1: "extract_storage ''Pixel 8 Pro Unlocked'' = ''Unknown''"
    by (rule mp[OF conjunct1[OF extract_storage_first_match[of "''Pixel 8 Pro Unlocked''" 0 "[]"]] n])
  have e2: "extract_storage ''iPhone 13 128 GB'' = ''128'' @ '' GB''"
    by (rule mp[OF conjunct1[OF conjunct2[OF
          extract_storage_first_match[of "''iPhone 13 128 GB''" 10 "''128''"]]] f])
  have f2: "\<not> (\<exists>j ds'. j < 10 \<and> storage_at ''iPhone 13 128 GB'' j ds')"
    using conjunct2[OF f] by blast
  show ?thesis using n conjunct1[OF f] f2 e1 e2 by simp
qed

subsection \<open>Storage from a long digit run\<close>

lemma long_run_no_match:
  assumes ds: "\<forall>c \<in> set d. is_digit c" "5 \<le> length d" and g: "lower gc = CHR ''g''"
  shows "\<not> storage_here (d @ [gc, bc] @ post) ds'"
proof
  assume h: "storage_here (d @ [gc, bc] @ post) ds'"
  have "\<not> is_digit gc" using lower_digit[of gc] g by (simp add: is_digit_def code_def)
  then have "takeWhile is_digit (d @ [gc, bc] @ post) = d"
    using ds(1) by (simp add: takeWhile_append2)
  then have "ds' = d" using storage_here_digits[OF h] by simp
  moreover have "length ds' \<le> 4" using h unfolding storage_here_def by blast
  ultimately show False using ds(2) by simp
qed

lemma long_run_last_four:
  assumes first: "\<forall>j < length pre. \<forall>ds'. \<not> storage_at (pre @ ds @ [gc, bc] @ post) j ds'"
    and ds: "\<forall>c \<in> set ds. is_digit c" "5 \<le> length ds"
    and gb: "lower gc = CHR ''g''" "lower bc = CHR ''b''"
    and post: "case post of [] \<Rightarrow> True | c # _ \<Rightarrow> \<not> is_word c"
  shows "extract_storage (pre @ ds @ [gc, bc] @ post) = drop (length ds - 4) ds @ '' GB''"
proof -
  let ?t = "pre @ ds @ [gc, bc] @ post"
  let ?i = "length pre + (length ds - 4)"
  let ?d4 = "drop (length ds - 4) ds"
  have drop_i: "drop ?i ?t = ?d4 @ [] @ [gc, bc] @ post" by simp
  have "\<forall>c \<in> set ?d4. is_digit c" using ds(1) by (meson in_set_dropD)
  moreover have "length ?d4 = 4" using ds(2) by simp
  ultimately have "storage_here (drop ?i ?t) ?d4"
    unfolding storage_here_def drop_i using gb post
    by (intro exI[of _ "[]"] exI[of _ gc] exI[of _ bc] exI[of _ post]) simp
  then have at: "storage_at ?t ?i ?d4" by (simp add: storage_at_def)
  have "\<forall>j < ?i. \<forall>ds'. \<not> storage_at ?t j ds'"
  proof (intro allI impI)
    fix j ds' assume j: "j < ?i"
    show "\<not> storage_at ?t j ds'"
    proof (cases "j < length pre")
      case True
      then show ?thesis using first by blast
    next
      case False
      let ?d = "drop (j - length pre) ds"
      have "j - length pre \<le> length ds" using j by simp
      then have dj: "drop j ?t = ?d @ [gc, bc] @ post" using False j by simp
      have "\<forall>c \<in> set ?d. is_digit c" using ds(1) by (meson in_set_dropD)
      moreover have "5 \<le> length ?d" using j False ds(2) by simp
      ultimately have "\<not> storage_here (drop j ?t) ds'"
        unfolding dj using long_run_no_match[OF _ _ gb(1)] by blast
      then show ?thesis by (simp add: storage_at_def)
    qed
  qed
  from extract_storage_first[OF at this] show ?thesis .
qed

text \<open>
  C10, as amended. No word boundary is required before the digits: when a title has a run
  of five or more digits immediately followed by "GB" in any casing and then by the end of
  the title or by a character that is not a word character, and no storage mention starts
  before the run, \<open>extract_storage\<close> returns the last four digits of the run; "12345GB"
  gives "2345 GB".
\<close>

theorem storage_long_digit_run:
  "((\<forall>j < length pre. \<forall>ds'. \<not> storage_at (pre @ ds @ [gc, bc] @ post) j ds')
      \<and> (\<forall>c \<in> set ds. is_digit c) \<and> 5 \<le> length ds
      \<and> lower gc = CHR ''g'' \<and> lower bc = CHR ''b''
      \<and> (case post of [] \<Rightarrow> True | c # _ \<Rightarrow> \<not> is_word c)
     \<longrightarrow> extract_storage (pre @ ds @ [gc, bc] @ post) = drop (length ds - 4) ds @ '' GB'')
   \<and> extract_storage ''12345GB'' = ''2345 GB''"
proof -
  have "extract_storage ''12345GB'' = ''2345 GB''" by code_simp
  then show ?thesis using long_run_last_four[of pre ds gc bc post] by blast
qed

lemma long_run_witness_hyps:
  "(\<forall>j < length ''iPhone 13 ''. \<forall>ds'.
       \<not> storage_at (''iPhone 13 '' @ ''0012345'' @ [CHR ''g'', CHR ''B''] @ '' new'') j ds')
   \<and> (\<forall>c \<in> set ''0012345''. is_digit c) \<and> 5 \<le> length ''0012345''
   \<and> lower CHR ''g'' = CHR ''g'' \<and> lower CHR ''B'' = CHR ''b''
   \<and> (case '' new'' of [] \<Rightarrow> True | c # _ \<Rightarrow> \<not> is_word c)"
proof -
  let ?t = "''iPhone 13 '' @ ''0012345'' @ [CHR ''g'', CHR ''B''] @ '' new''"
  have b: "\<forall>k < length ''iPhone 13 ''. mt STORAGE_RE (rev (take k ?t), drop k ?t, no_groups) = []"
    unfolding all_less_upt by (simp add: storage_eval)
  have "\<forall>j < length ''iPhone 13 ''. \<forall>ds'. \<not> storage_at ?t j ds'"
  proof (intro allI impI)
    fix j :: nat and ds' assume j: "j < length ''iPhone 13 ''"
    then have "j \<le> length ?t" by simp
    then show "\<not> storage_at ?t j ds'"
      using storage_at_mt[of j ?t] b j by blast
  qed
  moreover have "(\<forall>c \<in> set ''0012345''. is_digit c) \<and> 5 \<le> length ''0012345''
   \<and> lower CHR ''g'' = CHR ''g'' \<and> lower CHR ''B'' = CHR ''b''
   \<and> (case '' new'' of [] \<Rightarrow> True | c # _ \<Rightarrow> \<not> is_word c)"
    by (simp add: storage_eval)
  ultimately show ?thesis by blast
qed

theorem storage_long_digit_run_witness:
  "\<not> (\<exists>j ds'. j < length ''iPhone 13 ''
         \<and> storage_at (''iPhone 13 '' @ ''0012345'' @ [CHR ''g'', CHR ''B''] @ '' new'') j ds')
   \<and> list_all is_digit ''0012345'' \<and> 5 \<le> length ''0012345''
   \<and> lower CHR ''g'' = CHR ''g'' \<and> lower CHR ''B'' = CHR ''b''
   \<and> \<not> is_word (hd '' new'')
   \<and> extract_storage ''iPhone 13 0012345gB new'' = ''2345 GB''"
proof -
  note h = long_run_witness_hyps
  have "extract_storage (''iPhone 13 '' @ ''0012345'' @ [CHR ''g'', CHR ''B''] @ '' new'')
      = drop (length ''0012345'' - 4) ''0012345'' @ '' GB''"
    by (rule mp[OF conjunct1[OF storage_long_digit_run[of "''iPhone 13 ''" "''0012345''"
            "CHR ''g''" "CHR ''B''" "'' new''"]] h])
  then have e: "extract_storage ''iPhone 13 0012345gB new'' = ''2345 GB''" by simp
  have h1: "\<not> (\<exists>j ds'. j < length ''iPhone 13 ''
         \<and> storage_at (''iPhone 13 '' @ ''0012345'' @ [CHR ''g'', CHR ''B''] @ '' new'') j ds')"
    using conjunct1[OF h] by blast
  have h2: "list_all is_digit ''0012345'' \<and> 5 \<le> length ''0012345''
   \<and> lower CHR ''g'' = CHR ''g'' \<and> lower CHR ''B'' = CHR ''b''
   \<and> \<not> is_word (hd '' new'')"
    using conjunct2[OF h] by (simp add: list_all_iff)
  show ?thesis using h1 h2 e by blast
qed

text \<open>
  C10, as stated, for every title that contains a run of five or more digits immediately
  followed by "GB": the first storage mention of the title decides, so an earlier mention
  wins over the run, and a word character after "GB" leaves the run unmatched.
\<close>

lemma cex_earlier_in: "str_in ''12345GB'' ''64GB 12345GB''"
  by code_simp

lemma cex_earlier: "extract_storage ''64GB 12345GB'' = ''64 GB''"
  by code_simp

lemma cex_word_after_in: "str_in ''12345GB'' ''12345GBs''"
  by code_simp

lemma cex_word_after: "extract_storage ''12345GBs'' = ''Unknown''"
  by code_simp

theorem storage_long_digit_run_counterexample:
  "str_in ''12345GB'' ''64GB 12345GB'' \<and> extract_storage ''64GB 12345GB'' = ''64 GB''
   \<and> str_in ''12345GB'' ''12345GBs'' \<and> extract_storage ''12345GBs'' = ''Unknown''"
  by (intro conjI cex_earlier_in cex_earlier cex_word_after_in cex_word_after)

subsection \<open>Collapsing whitespace\<close>














lemma glang_seqs_atoms: "glang i (seqs (map (\<lambda>c. Atom (P c)) s)) = {}"
proof (induction s)
  case Nil
  then show ?case by simp
next
  case (Cons c s)
  then show ?case by (cases s) auto
qed

lemma glang_liti [simp]: "glang i (liti s) = {}"
  unfolding liti_def by (rule glang_seqs_atoms)

lemma plain_seqs_atoms: "plain (seqs (map (\<lambda>c. Atom (P c)) s))"
proof (induction s)
  case Nil
  then show ?case by simp
next
  case (Cons c s)
  then show ?case by (cases s) auto
qed

lemma plain_liti [simp]: "plain (liti s)"
  unfolding liti_def by (rule plain_seqs_atoms)






subsection \<open>Tokens of the Pixel scanner\<close>















subsection \<open>Tokens of the iPhone scanner\<close>













subsection \<open>Captured tokens always normalize\<close>















lemma latin1_tokens_example:
  "iphone_tokens_u (ustr ''Apple iPhone 14 PRO   max 256GB'') = [Some (ustr ''14 PRO   max'')]"
  by code_simp

lemma latin1_normalize_example:
  "normalize_iphone_token_u (ustr ''14 PRO   max'') = Some (ustr ''iPhone 14 Pro Max'')"
  by code_simp


subsection \<open>Resolver exclusivity\<close>

lemma base_gets_pro_file:
  "find_csv_for_model [''pixel 9 pro.csv'', ''pixel 9.csv''] ''Pixel 9'' = Inr (Some ''pixel 9 pro.csv'')"
  by code_simp

lemma base_gets_pro_file_hyphen:
  "find_csv_for_model [''pixel-9-pro.csv''] ''Pixel 9'' = Inr (Some ''pixel-9-pro.csv'')"
  by code_simp

lemma pro_gets_pro_xl_file:
  "find_csv_for_model [''pixel 9 pro xl.csv'', ''pixel 9 pro.csv''] ''Pixel 9 Pro''
     = Inr (Some ''pixel 9 pro xl.csv'')"
  by code_simp

lemma sibling_base:
  "find_csv_for_model_test [''pixel 9 pro.csv'', ''pixel 9.csv''] ''Pixel 9'' = Inr (Some ''pixel 9.csv'')"
  by code_simp

lemma sibling_pro:
  "find_csv_for_model_test [''pixel 9 pro xl.csv'', ''pixel 9 pro.csv''] ''Pixel 9 Pro''
     = Inr (Some ''pixel 9 pro.csv'')"
  by code_simp

lemma sibling_iphone:
  "find_csv_for_iphone [''iphone 14 pro max.csv'', ''iphone 14 pro.csv''] ''iPhone 14 Pro''
     = Inr (Some ''iphone 14 pro.csv'')"
  by code_simp

lemma sibling_iphone_base:
  "find_csv_for_iphone [''iphone 14 pro.csv'', ''iphone 14.csv''] ''iPhone 14''
     = Inr (Some ''iphone 14.csv'')"
  by code_simp

text \<open>
  C3. A request for a base or shorter variant should never be answered with the file of a
  longer variant. The pattern that \<open>find_csv_for_model\<close> of \<^verbatim>\<open>pixel_all_only.py\<close> builds ends
  in \<^verbatim>\<open>\b.*\.csv$\<close> and excludes nothing after the requested tokens: in a directory that
  holds "pixel 9 pro.csv" and "pixel 9.csv" the request "Pixel 9" is answered with
  "pixel 9 pro.csv", a file named "pixel-9-pro.csv" is taken for "Pixel 9", and the
  request "Pixel 9 Pro" is answered with "pixel 9 pro xl.csv". The resolver of
  \<^verbatim>\<open>test.py\<close> and \<open>find_csv_for_iphone\<close>, whose patterns exclude the longer variants by a
  negative lookahead, return the file of the requested model.
\<close>

theorem pixel_resolver_returns_longer_variant:
  "find_csv_for_model [''pixel 9 pro.csv'', ''pixel 9.csv''] ''Pixel 9'' = Inr (Some ''pixel 9 pro.csv'')
   \<and> find_csv_for_model [''pixel-9-pro.csv''] ''Pixel 9'' = Inr (Some ''pixel-9-pro.csv'')
   \<and> find_csv_for_model [''pixel 9 pro xl.csv'', ''pixel 9 pro.csv''] ''Pixel 9 Pro''
        = Inr (Some ''pixel 9 pro xl.csv'')
   \<and> find_csv_for_model_test [''pixel 9 pro.csv'', ''pixel 9.csv''] ''Pixel 9''
        = Inr (Some ''pixel 9.csv'')
   \<and> find_csv_for_model_test [''pixel 9 pro xl.csv'', ''pixel 9 pro.csv''] ''Pixel 9 Pro''
        = Inr (Some ''pixel 9 pro.csv'')
   \<and> find_csv_for_iphone [''iphone 14 pro max.csv'', ''iphone 14 pro.csv''] ''iPhone 14 Pro''
        = Inr (Some ''iphone 14 pro.csv'')
   \<and> find_csv_for_iphone [''iphone 14 pro.csv'', ''iphone 14.csv''] ''iPhone 14''
        = Inr (Some ''iphone 14.csv'')"
  by (intro conjI base_gets_pro_file base_gets_pro_file_hyphen pro_gets_pro_xl_file
      sibling_base sibling_pro sibling_iphone sibling_iphone_base)

subsection \<open>The batch loop\<close>

lemma run_batch_append:
  "run_batch P w (xs @ ys) =
     (case run_batch P w xs of (Inl e, w') \<Rightarrow> (Inl e, w') | (Inr u, w') \<Rightarrow> run_batch P w' ys)"
proof (induction xs arbitrary: w)
  case Nil
  then show ?case by simp
next
  case (Cons x xs)
  then show ?case by (auto split: prod.splits sum.splits)
qed

text \<open>
  C4, as amended. For every requested model name that the resolver grammar does not
  recognize, the resolver raises \<^verbatim>\<open>ValueError\<close> "Model name not recognized: ..." and
  \<open>export_model_subset\<close> passes it on. The batch loop does not catch it: the run stops at
  that model, after the models before it have been processed; it and the remaining models
  are not processed.
\<close>

theorem unrecognized_model_stops_batch:
  "re_match PIXEL_NAME_RE name = None \<longrightarrow>
     find_csv_for_model directory name = Inl (not_recognized name)
     \<and> export_model_subset P w name = (Inl (not_recognized name), w)
     \<and> run_batch P w (name # rest) = (Inl (not_recognized name), w)
     \<and> (run_batch P w0 before = (Inr (), w)
          \<longrightarrow> run_batch P w0 (before @ name # rest) = (Inl (not_recognized name), w))"
proof
  assume n: "re_match PIXEL_NAME_RE name = None"
  have 1: "find_csv_for_model directory name = Inl (not_recognized name)" for directory
    using n by (simp add: find_csv_for_model_def)
  have 2: "export_model_subset P w name = (Inl (not_recognized name), w)"
    using 1 by (simp add: export_model_subset_def)
  have 3: "run_batch P w (name # rest) = (Inl (not_recognized name), w)"
    using 2 by simp
  have 4: "run_batch P w0 before = (Inr (), w)
      \<longrightarrow> run_batch P w0 (before @ name # rest) = (Inl (not_recognized name), w)"
    using 3 by (simp add: run_batch_append)
  show "find_csv_for_model directory name = Inl (not_recognized name)
     \<and> export_model_subset P w name = (Inl (not_recognized name), w)
     \<and> run_batch P w (name # rest) = (Inl (not_recognized name), w)
     \<and> (run_batch P w0 before = (Inr (), w)
          \<longrightarrow> run_batch P w0 (before @ name # rest) = (Inl (not_recognized name), w))"
    using 1 2 3 4 by blast
qed

lemmas ev_all2 = no_groups_def at_boundary_def liti_def lit_def sep_def dot_def in_range_def
  is_digit_def is_space_def is_word_def is_alpha_def is_upper_def lower_def code_def

lemma pixel9a_unrecognized: "re_match PIXEL_NAME_RE ''Pixel 9a'' = None"
  by (simp add: re_match_def match_here_def PIXEL_NAME_RE_def ev_all2)

lemma batch_pixel9:
  "run_batch example_library example_world [''Pixel 9''] =
     (Inr (), print (Exported ''Pixel 9'' 2 ''pixel_9_only.csv'')
        (to_csv ''pixel_9_only.csv''
           \<lparr>columns = [''Title'', ''Sold Date'', ''Storage'', ''Condition'', ''PartsOnly'',
                       ''Model'', ''Pixel_9''],
            rows = [[(''Title'', Str ''Google Pixel 9 128GB''), (''Sold Date'', Stamp (2025, 10, 21)),
                     (''Storage'', Str ''128 GB''), (''Condition'', Str ''Unknown''),
                     (''PartsOnly'', Bool False), (''Model'', Str ''Pixel 9''),
                     (''Pixel_9'', Bool True)],
                    [(''Title'', Str ''Pixel 9 Excellent''), (''Sold Date'', NaT),
                     (''Storage'', Str ''Unknown''), (''Condition'', Str ''Excellent''),
                     (''PartsOnly'', Bool False), (''Model'', Str ''Pixel 9''),
                     (''Pixel_9'', Bool True)]]\<rparr>
           (print (UsingFile ''pixel 9.csv'') example_world)))"
  by code_simp


theorem unrecognized_model_stops_batch_witness:
  "re_match PIXEL_NAME_RE ''Pixel 9a'' = None
   \<and> fst (run_batch example_library example_world [''Pixel 9'', ''Pixel 9a'', ''Pixel 8''])
        = Inl (not_recognized ''Pixel 9a'')
   \<and> snd (run_batch example_library example_world [''Pixel 9'', ''Pixel 9a'', ''Pixel 8''])
        = snd (run_batch example_library example_world [''Pixel 9''])"
proof -
  obtain w1 where w1: "run_batch example_library example_world [''Pixel 9''] = (Inr (), w1)"
    using batch_pixel9 by blast
  note t = mp[OF unrecognized_model_stops_batch[where name="''Pixel 9a''" and P=example_library
        and w=w1 and ?w0.0=example_world and before="[''Pixel 9'']" and rest="[''Pixel 8'']"
        and directory="[]"] pixel9a_unrecognized]
  have "run_batch example_library example_world ([''Pixel 9''] @ ''Pixel 9a'' # [''Pixel 8''])
      = (Inl (not_recognized ''Pixel 9a''), w1)"
    by (rule mp[OF conjunct2[OF conjunct2[OF conjunct2[OF t]]] w1])
  then have "run_batch example_library example_world [''Pixel 9'', ''Pixel 9a'', ''Pixel 8'']
      = (Inl (not_recognized ''Pixel 9a''), w1)" by simp
  then show ?thesis using w1 pixel9a_unrecognized by simp
qed

text \<open>
  C4, as stated, says that the remaining models are still processed. In the example run
  the unrecognized name "Pixel" ends the batch with the world untouched, although
  "Pixel 9" after it would have been exported.
\<close>

lemma cex_batch_aborted:
  "run_batch example_library example_world [''Pixel'', ''Pixel 9'']
     = (Inl (not_recognized ''Pixel''), example_world)"
  by code_simp

lemma cex_batch_alone:
  "fst (run_batch example_library example_world [''Pixel 9'']) = Inr ()"
  by code_simp

lemma cex_batch_alone_files:
  "listing (snd (run_batch example_library example_world [''Pixel 9'']))
     = [''pixel 9.csv'', ''pixel_9_only.csv'']"
  by code_simp

theorem batch_continues_counterexample:
  "run_batch example_library example_world [''Pixel'', ''Pixel 9'']
     = (Inl (not_recognized ''Pixel''), example_world)
   \<and> listing example_world = [''pixel 9.csv'']
   \<and> fst (run_batch example_library example_world [''Pixel 9'']) = Inr ()
   \<and> listing (snd (run_batch example_library example_world [''Pixel 9'']))
        = [''pixel 9.csv'', ''pixel_9_only.csv'']"
proof -
  have "listing example_world = [''pixel 9.csv'']" by code_simp
  then show ?thesis using cex_batch_aborted cex_batch_alone cex_batch_alone_files by simp
qed

text \<open>
  C5. For every model whose source CSV the resolver does not find, the export
  (\<open>export_model_subset\<close>, \<open>export_iphone_subset\<close>) prints a diagnostic message, returns
  \<open>None\<close> without raising, writes no file, and the batch loop goes on with the remaining
  models.
\<close>

theorem missing_csv_is_skipped:
  "(find_csv_for_model (listing w) model = Inr None \<longrightarrow>
      export_model_subset P w model = (Inr None, print (NoCsvFound model) w)
      \<and> files (print (NoCsvFound model) w) = files w
      \<and> run_batch P w (model # rest) = run_batch P (print (NoCsvFound model) w) rest)
   \<and> (find_csv_for_iphone (listing w) model = Inr None \<longrightarrow>
      export_iphone_subset P w model = (Inr None, print (NoCsvFound model) w)
      \<and> files (print (NoCsvFound model) w) = files w
      \<and> run_iphone_batch P w (model # rest) = run_iphone_batch P (print (NoCsvFound model) w) rest)"
  by (simp add: export_model_subset_def export_iphone_subset_def print_def)

lemma no_pixel8: "find_csv_for_model (listing example_world) ''Pixel 8'' = Inr None"
  by code_simp

lemma no_iphone14: "find_csv_for_iphone (listing example_world) ''iPhone 14'' = Inr None"
  by code_simp

lemma batch_after_skip:
  "stdout (snd (run_batch example_library (print (NoCsvFound ''Pixel 8'') example_world) [''Pixel 9'']))
     = [NoCsvFound ''Pixel 8'', UsingFile ''pixel 9.csv'', Exported ''Pixel 9'' 2 ''pixel_9_only.csv'']"
  by code_simp

lemma iphone_batch_after_skip:
  "run_iphone_batch example_library (print (NoCsvFound ''iPhone 14'') example_world) [''iPhone 15'']
     = (Inr (), print (NoCsvFound ''iPhone 15'') (print (NoCsvFound ''iPhone 14'') example_world))"
  by code_simp

theorem missing_csv_is_skipped_witness:
  "find_csv_for_model (listing example_world) ''Pixel 8'' = Inr None
   \<and> export_model_subset example_library example_world ''Pixel 8''
        = (Inr None, print (NoCsvFound ''Pixel 8'') example_world)
   \<and> stdout (snd (run_batch example_library example_world [''Pixel 8'', ''Pixel 9'']))
        = [NoCsvFound ''Pixel 8'', UsingFile ''pixel 9.csv'', Exported ''Pixel 9'' 2 ''pixel_9_only.csv'']
   \<and> find_csv_for_iphone (listing example_world) ''iPhone 14'' = Inr None
   \<and> run_iphone_batch example_library example_world [''iPhone 14'', ''iPhone 15'']
        = (Inr (), print (NoCsvFound ''iPhone 15'') (print (NoCsvFound ''iPhone 14'') example_world))"
proof -
  note p = mp[OF conjunct1[OF missing_csv_is_skipped[where w=example_world and model="''Pixel 8''"
          and P=example_library and rest="[''Pixel 9'']"]] no_pixel8]
  note i = mp[OF conjunct2[OF missing_csv_is_skipped[where w=example_world and model="''iPhone 14''"
          and P=example_library and rest="[''iPhone 15'']"]] no_iphone14]
  have a: "export_model_subset example_library example_world ''Pixel 8''
        = (Inr None, print (NoCsvFound ''Pixel 8'') example_world)"
    by (rule conjunct1[OF p])
  have b: "stdout (snd (run_batch example_library example_world [''Pixel 8'', ''Pixel 9'']))
        = [NoCsvFound ''Pixel 8'', UsingFile ''pixel 9.csv'', Exported ''Pixel 9'' 2 ''pixel_9_only.csv'']"
    unfolding conjunct2[OF conjunct2[OF p]] by (rule batch_after_skip)
  have c: "run_iphone_batch example_library example_world [''iPhone 14'', ''iPhone 15'']
        = (Inr (), print (NoCsvFound ''iPhone 15'') (print (NoCsvFound ''iPhone 14'') example_world))"
    unfolding conjunct2[OF conjunct2[OF i]] by (rule iphone_batch_after_skip)
  show ?thesis by (intro conjI no_pixel8 a b no_iphone14 c)
qed

subsection \<open>Sold dates\<close>









lemma rows_select: "rows (select keep df) = sel keep (rows df)"
  by (simp add: select_def sel_def)













lemma length_sel_rows:
  "length xs = length ys \<Longrightarrow> length (sel keep xs) = length (sel keep ys)"
  unfolding sel_def
proof (induction xs ys arbitrary: keep rule: list_induct2)
  case Nil
  then show ?case by simp
next
  case (Cons x xs y ys)
  then show ?case by (cases keep) auto
qed

























end
